theory Spec2Isabelle
  imports Complex_Main
begin

section \<open>Python values shared by both modules\<close>

text \<open>
  The two modules are \<^verbatim>\<open>lib/cea.py\<close> (the interface to NASA's CEA solver) and
  \<^verbatim>\<open>lib/plumbing.py\<close> (feed-line formulas). A number that is a field of an input is
  modelled by its value, a \<^typ>\<open>real\<close> (the value of the finite double it is). A float
  that an arithmetic operation computes is a \<open>pyfloat\<close> below: the operation is rounded
  to the nearest double, overflows to an infinity and underflows to a zero as IEEE 754
  has it. Every exception the code can raise on numbers and strings of the right type is
  a value of \<^verbatim>\<open>error\<close>.
\<close>

datatype error = ZeroDivisionError | IndexError | ValueError | TypeError

subsection \<open>Strings\<close>

text \<open>\<^verbatim>\<open>s.startswith(p)\<close> and \<^verbatim>\<open>sub in s\<close> on strings.\<close>

fun startswith :: "string \<Rightarrow> string \<Rightarrow> bool" where
  "startswith s [] = True"
| "startswith [] (p # ps) = False"
| "startswith (c # cs) (p # ps) = (c = p \<and> startswith cs ps)"

fun contains :: "string \<Rightarrow> string \<Rightarrow> bool" where
  "contains sub [] = (sub = [])"
| "contains sub (c # cs) = (startswith (c # cs) sub \<or> contains sub cs)"

text \<open>
  \<^verbatim>\<open>str.isspace\<close> on one character, for the code points below 256: tab, line feed,
  vertical tab, form feed, carriage return, the four separators 0x1C to 0x1F, space,
  NEL (0x85) and the no-break space (0xA0).
\<close>

definition isspace :: "char \<Rightarrow> bool" where
  "isspace c \<longleftrightarrow> c \<in> set [CHR 0x09, CHR 0x0A, CHR 0x0B, CHR 0x0C, CHR 0x0D,
     CHR 0x1C, CHR 0x1D, CHR 0x1E, CHR 0x1F, CHR 0x20, CHR 0x85, CHR 0xA0]"

text \<open>
  \<^verbatim>\<open>line.split()\<close> with no argument: the maximal runs of non-whitespace characters,
  in order; \<open>cur\<close> is the run being read.
\<close>

fun split_from :: "string \<Rightarrow> string \<Rightarrow> string list" where
  "split_from cur [] = (if cur = [] then [] else [cur])"
| "split_from cur (c # cs) =
     (if isspace c then (if cur = [] then split_from [] cs else cur # split_from [] cs)
      else split_from (cur @ [c]) cs)"

definition str_split :: "string \<Rightarrow> string list" where
  "str_split s = split_from [] s"

text \<open>
  \<^verbatim>\<open>f.readlines()\<close> on the text of a file (after Python's newline translation): the
  lines in order, each with its line feed, the last one without when the text does not
  end in one.
\<close>

fun readlines_from :: "string \<Rightarrow> string \<Rightarrow> string list" where
  "readlines_from cur [] = (if cur = [] then [] else [cur])"
| "readlines_from cur (c # cs) =
     (if c = CHR 0x0A then (cur @ [c]) # readlines_from [] cs
      else readlines_from (cur @ [c]) cs)"

definition readlines :: "string \<Rightarrow> string list" where
  "readlines s = readlines_from [] s"

section \<open>cea.py: parsing the solver's output\<close>

text \<open>
  \<^verbatim>\<open>CEAOutputData\<close> declares five fields, all defaulting to 0. The parser also
  assigns \<^verbatim>\<open>r.throat_gamma\<close> and \<^verbatim>\<open>r.throat_molar_mass\<close>, which the dataclass does
  not declare: Python creates them on the instance at the first assignment. They are
  the two optional fields here, \<open>None\<close> while the attribute does not exist.
\<close>

record CEAOutputData =
  chamber_temp :: real
  exhaust_gamma :: real
  exhaust_molar_mass :: real
  cstar :: real
  exhaust_velocity :: real
  throat_gamma :: "real option"
  throat_molar_mass :: "real option"

definition CEAOutputData_init :: CEAOutputData where
  "CEAOutputData_init =
     \<lparr>chamber_temp = 0, exhaust_gamma = 0, exhaust_molar_mass = 0, cstar = 0,
      exhaust_velocity = 0, throat_gamma = None, throat_molar_mass = None\<rparr>"

text \<open>
  \<^verbatim>\<open>float(line.split()[i])\<close>: IndexError when the line has no field \<open>i\<close>, ValueError
  when the field is not a number. Python's \<^verbatim>\<open>float\<close> on a string is the parameter
  \<open>flt\<close> (\<open>None\<close> where it raises) of everything that follows.
\<close>

definition float_field :: "(string \<Rightarrow> real option) \<Rightarrow> string \<Rightarrow> nat \<Rightarrow> error + real" where
  "float_field flt line i =
     (let toks = str_split line in
      if i < length toks
      then (case flt (toks ! i) of None \<Rightarrow> Inl ValueError | Some v \<Rightarrow> Inr v)
      else Inl IndexError)"

text \<open>The body of \<^verbatim>\<open>if relevant_flag:\<close>, one \<^verbatim>\<open>if\<close>/\<^verbatim>\<open>elif\<close> chain.\<close>

definition read_row :: "(string \<Rightarrow> real option) \<Rightarrow> CEAOutputData \<Rightarrow> string \<Rightarrow> error + CEAOutputData" where
  "read_row flt r line =
     (if contains ''T, K'' line then
        (case float_field flt line 2 of Inl e \<Rightarrow> Inl e | Inr v \<Rightarrow> Inr (r\<lparr>chamber_temp := v\<rparr>))
      else if contains ''GAMMAs'' line then
        (case float_field flt line 2 of Inl e \<Rightarrow> Inl e | Inr v \<Rightarrow> Inr (r\<lparr>throat_gamma := Some v\<rparr>))
      else if contains ''M, (1/n)'' line then
        (case float_field flt line 3 of Inl e \<Rightarrow> Inl e | Inr v \<Rightarrow> Inr (r\<lparr>throat_molar_mass := Some v\<rparr>))
      else if contains ''CSTAR, M/SEC'' line then
        (case float_field flt line 3 of Inl e \<Rightarrow> Inl e | Inr v \<Rightarrow> Inr (r\<lparr>cstar := v\<rparr>))
      else if contains ''Isp, M/SEC'' line then
        (case float_field flt line 3 of Inl e \<Rightarrow> Inl e | Inr v \<Rightarrow> Inr (r\<lparr>exhaust_velocity := v\<rparr>))
      else Inr r)"

text \<open>The second \<^verbatim>\<open>if\<close>/\<^verbatim>\<open>elif\<close> of the loop body, which moves \<^verbatim>\<open>relevant_flag\<close>.\<close>

definition next_flag :: "bool \<Rightarrow> string \<Rightarrow> bool" where
  "next_flag relevant_flag line =
     (if contains ''THEORETICAL ROCKET PERFORMANCE'' line then True
      else if contains ''PRODUCTS WHICH WERE CONSIDERED'' line then False
      else relevant_flag)"

text \<open>
  The \<^verbatim>\<open>for\<close> loop over the lines, from a flag and a record: an exception leaves the
  loop, otherwise the final flag and record are returned.
\<close>

fun scan_lines :: "(string \<Rightarrow> real option) \<Rightarrow> bool \<Rightarrow> CEAOutputData \<Rightarrow> string list
    \<Rightarrow> error + bool \<times> CEAOutputData" where
  "scan_lines flt relevant_flag r [] = Inr (relevant_flag, r)"
| "scan_lines flt relevant_flag r (line # rest) =
     (case (if relevant_flag then read_row flt r line else Inr r) of
        Inl e \<Rightarrow> Inl e
      | Inr r' \<Rightarrow> scan_lines flt (next_flag relevant_flag line) r' rest)"

text \<open>\<^verbatim>\<open>parse_out_file\<close>, on the text of \<^verbatim>\<open>ceadata.out\<close>.\<close>

definition parse_out_file :: "(string \<Rightarrow> real option) \<Rightarrow> string \<Rightarrow> error + CEAOutputData" where
  "parse_out_file flt out_text =
     (case scan_lines flt False CEAOutputData_init (readlines out_text) of
        Inl e \<Rightarrow> Inl e
      | Inr (relevant_flag, r) \<Rightarrow> Inr r)"

subsection \<open>Notions used to state the properties of the parser\<close>

text \<open>
  The lines the loop reads while \<^verbatim>\<open>relevant_flag\<close> is set, in order. The flag is
  tested before the same line moves it: the line with the start marker is not read, the
  line with the end marker is, and a start marker after an end marker opens a further
  section.
\<close>

fun inspected_from :: "bool \<Rightarrow> string list \<Rightarrow> string list" where
  "inspected_from relevant_flag [] = []"
| "inspected_from relevant_flag (line # rest) =
     (if relevant_flag then [line] else []) @ inspected_from (next_flag relevant_flag line) rest"

definition inspected :: "string \<Rightarrow> string list" where
  "inspected out_text = inspected_from False (readlines out_text)"

text \<open>The rows read one after the other, stopping at the first exception.\<close>

fun read_rows :: "(string \<Rightarrow> real option) \<Rightarrow> CEAOutputData \<Rightarrow> string list \<Rightarrow> error + CEAOutputData" where
  "read_rows flt r [] = Inr r"
| "read_rows flt r (line # rest) =
     (case read_row flt r line of Inl e \<Rightarrow> Inl e | Inr r' \<Rightarrow> read_rows flt r' rest)"

text \<open>
  The window as the specification words it: the lines after the first line with the
  start marker and before the next line with the end marker.
\<close>

definition between_markers :: "string list \<Rightarrow> string list" where
  "between_markers ls =
     takeWhile (\<lambda>l. \<not> contains ''PRODUCTS WHICH WERE CONSIDERED'' l)
       (drop 1 (dropWhile (\<lambda>l. \<not> contains ''THEORETICAL ROCKET PERFORMANCE'' l) ls))"

text \<open>Which of the five rows a line is, by the first marker of the chain it contains.\<close>

datatype row = TempRow | GammaRow | MolarMassRow | CstarRow | IspRow

definition row_of :: "string \<Rightarrow> row option" where
  "row_of line =
     (if contains ''T, K'' line then Some TempRow
      else if contains ''GAMMAs'' line then Some GammaRow
      else if contains ''M, (1/n)'' line then Some MolarMassRow
      else if contains ''CSTAR, M/SEC'' line then Some CstarRow
      else if contains ''Isp, M/SEC'' line then Some IspRow
      else None)"

text \<open>
  A sample of Python's \<^verbatim>\<open>float\<close> for the concrete inputs below: plain decimal
  literals with an optional sign and an optional fraction, read exactly. Exponents,
  \<^verbatim>\<open>inf\<close>, \<^verbatim>\<open>nan\<close> and underscores are not covered; the theorems hold for any \<open>flt\<close>.
\<close>

definition digit_of :: "char \<Rightarrow> nat option" where
  "digit_of c = map_of [(CHR ''0'', 0), (CHR ''1'', 1), (CHR ''2'', 2), (CHR ''3'', 3),
     (CHR ''4'', 4), (CHR ''5'', 5), (CHR ''6'', 6), (CHR ''7'', 7), (CHR ''8'', 8),
     (CHR ''9'', 9)] c"

fun digits_val :: "nat \<Rightarrow> string \<Rightarrow> nat option" where
  "digits_val acc [] = Some acc"
| "digits_val acc (c # cs) =
     (case digit_of c of None \<Rightarrow> None | Some d \<Rightarrow> digits_val (10 * acc + d) cs)"

definition unsigned_decimal :: "string \<Rightarrow> real option" where
  "unsigned_decimal s =
     (let ip = takeWhile (\<lambda>c. c \<noteq> CHR ''.'') s;
          fp = drop 1 (dropWhile (\<lambda>c. c \<noteq> CHR ''.'') s)
      in if ip = [] \<and> fp = [] then None
         else (case (digits_val 0 ip, digits_val 0 fp) of
                 (Some a, Some b) \<Rightarrow> Some (real a + real b / 10 ^ length fp)
               | _ \<Rightarrow> None))"

definition float_decimal :: "string \<Rightarrow> real option" where
  "float_decimal s =
     (case s of
        [] \<Rightarrow> None
      | c # cs \<Rightarrow>
          if c = CHR ''-'' then map_option uminus (unsigned_decimal cs)
          else if c = CHR ''+'' then unsigned_decimal cs
          else unsigned_decimal s)"

definition row_error :: "(string \<Rightarrow> real option) \<Rightarrow> string \<Rightarrow> error option" where
  "row_error flt line =
     (case read_row flt CEAOutputData_init line of Inl e \<Rightarrow> Some e | Inr r \<Rightarrow> None)"

text \<open>Solver outputs for the concrete cases below.\<close>

definition out_one_section :: string where
  "out_one_section =
     ''THEORETICAL ROCKET PERFORMANCE\<newline> T, K 3800.5\<newline> PRODUCTS WHICH WERE CONSIDERED\<newline>''"

definition out_two_sections :: string where
  "out_two_sections = out_one_section @
     ''THEORETICAL ROCKET PERFORMANCE\<newline> T, K 100.5\<newline> PRODUCTS WHICH WERE CONSIDERED\<newline>''"

definition out_noisy :: string where
  "out_noisy = '' T, K 1.5\<newline>'' @ out_one_section @ '' GAMMAs 1 2 3\<newline>''"

definition out_gamma :: string where
  "out_gamma = ''THEORETICAL ROCKET PERFORMANCE\<newline> GAMMAs 1.25 1.5 1.75\<newline>''"

section \<open>cea.py: writing the solver's input\<close>

subsection \<open>The format specification \<^verbatim>\<open>.3f\<close>\<close>

text \<open>
  \<^verbatim>\<open>format(x, '.3f')\<close> prints the decimal with three fractional digits nearest to the
  value of \<open>x\<close>, a tie going to the even last digit, and a minus sign for a negative
  \<open>x\<close> even when every digit printed is 0.
\<close>

definition digit_char :: "nat \<Rightarrow> char" where
  "digit_char d = ''0123456789'' ! d"

fun digits :: "nat \<Rightarrow> string" where
  "digits n = (if n < 10 then [digit_char n] else digits (n div 10) @ [digit_char (n mod 10)])"

declare digits.simps [simp del]

definition round_half_even :: "real \<Rightarrow> int" where
  "round_half_even y =
     (let n = \<lfloor>y\<rfloor>; d = y - of_int n in
      if d < 1 / 2 then n else if 1 / 2 < d then n + 1 else if even n then n else n + 1)"

definition fmt3 :: "real \<Rightarrow> string" where
  "fmt3 x =
     (let n = nat (round_half_even (\<bar>x\<bar> * 1000)) in
      (if x < 0 then ''-'' else '''') @ digits (n div 1000) @ ''.'' @
      [digit_char (n div 100 mod 10), digit_char (n div 10 mod 10), digit_char (n mod 10)])"

subsection \<open>Floats that are computed\<close>

text \<open>
  A Python float is a finite number, the negative zero, an infinity (\<open>True\<close> for the
  negative one) or nan; \<open>Finite 0\<close> is the positive zero.
\<close>

datatype pyfloat = Finite real | NegZero | Infinity bool | NaN

text \<open>
  Rounding a real number to a double (IEEE 754 binary64, round to nearest, ties to even).
  The exponent of a positive \<open>a\<close> is the least \<open>e\<close> from -1022 on with \<open>a < 2 ^ (e + 1)\<close>,
  searched upwards; it is -1022 for every subnormal \<open>a\<close> and 1024 when there is none up to
  1023. A double has 53 significant bits, so the spacing of the doubles around \<open>a\<close> is
  \<open>2 ^ (e - 52)\<close>; the magnitude is rounded to a multiple of it, and a result of
  \<open>2 ^ 1024\<close> or more is an infinity. A result that rounds to zero keeps the sign.
\<close>

fun exp_search :: "nat \<Rightarrow> int \<Rightarrow> real \<Rightarrow> int" where
  "exp_search 0 e a = e"
| "exp_search (Suc n) e a = (if a < 2 powi (e + 1) then e else exp_search n (e + 1) a)"

definition double_exponent :: "real \<Rightarrow> int" where
  "double_exponent a = exp_search 2046 (- 1022) a"

definition signed_zero :: "bool \<Rightarrow> pyfloat" where
  "signed_zero negative = (if negative then NegZero else Finite 0)"

definition round_double :: "real \<Rightarrow> pyfloat" where
  "round_double x =
     (let a = \<bar>x\<bar>;
          ulp = 2 powi (double_exponent a - 52);
          m = round_half_even (a / ulp);
          r = of_int m * ulp
      in if 2 powi 1024 \<le> r then Infinity (x < 0)
         else if m = 0 then signed_zero (x < 0)
         else Finite (if x < 0 then - r else r))"

fun is_zero :: "pyfloat \<Rightarrow> bool" where
  "is_zero (Finite v) = (v = 0)"
| "is_zero NegZero = True"
| "is_zero x = False"

fun is_inf :: "pyfloat \<Rightarrow> bool" where
  "is_inf (Infinity s) = True"
| "is_inf x = False"

text \<open>The sign bit (of a float that is not nan) and the value of a finite float.\<close>

fun sign_bit :: "pyfloat \<Rightarrow> bool" where
  "sign_bit (Finite v) = (v < 0)"
| "sign_bit NegZero = True"
| "sign_bit (Infinity s) = s"
| "sign_bit NaN = False"

fun float_value :: "pyfloat \<Rightarrow> real" where
  "float_value (Finite v) = v"
| "float_value x = 0"

text \<open>
  \<^verbatim>\<open>a / b\<close> on floats: Python raises ZeroDivisionError for a zero divisor, whatever
  the dividend is, and otherwise returns the IEEE quotient.
\<close>

definition float_truediv :: "pyfloat \<Rightarrow> pyfloat \<Rightarrow> error + pyfloat" where
  "float_truediv a b =
     (if is_zero b then Inl ZeroDivisionError
      else Inr (if a = NaN \<or> b = NaN then NaN
                else if is_inf a \<and> is_inf b then NaN
                else if is_inf a then Infinity (sign_bit a \<noteq> sign_bit b)
                else if is_inf b then signed_zero (sign_bit a \<noteq> sign_bit b)
                else if is_zero a then signed_zero (sign_bit a \<noteq> sign_bit b)
                else round_double (float_value a / float_value b)))"

text \<open>The format \<^verbatim>\<open>.3f\<close> on a computed float.\<close>

fun fmt3_float :: "pyfloat \<Rightarrow> string" where
  "fmt3_float (Finite x) = fmt3 x"
| "fmt3_float NegZero = ''-0.000''"
| "fmt3_float (Infinity negative) = (if negative then ''-inf'' else ''inf'')"
| "fmt3_float NaN = ''nan''"

subsection \<open>The writer\<close>

text \<open>
  \<^verbatim>\<open>CEAInputData\<close>. The attribute \<^verbatim>\<open>of\<close> is \<open>of_ratio\<close> here, \<open>of\<close> being reserved
  in Isabelle. The pressures, the O/F ratio, the percentages and the temperatures are
  numbers, the chemical names are strings.
\<close>

record CEAInputData =
  pcham :: real
  pamb :: real
  of_ratio :: real
  fuel_chems :: "string list"
  fuel_chem_mass_percs :: "real list"
  fuel_initial_temp :: real
  ox_chem :: string
  ox_initial_temp :: real
  equilibrium :: bool

text \<open>
  The file \<^verbatim>\<open>ceadata.inp\<close>, opened with mode \<^verbatim>\<open>w\<close>, is the list of the strings
  written so far; its text is their concatenation. \<^verbatim>\<open>f.write(s)\<close> appends one.
\<close>

definition f_write :: "string list \<Rightarrow> string \<Rightarrow> string list" where
  "f_write f s = f @ [s]"

text \<open>The loop over \<^verbatim>\<open>zip(inp.fuel_chems, inp.fuel_chem_mass_percs)\<close>, which ends with
  the shorter list; \<open>t\<close> is \<^verbatim>\<open>inp.fuel_initial_temp\<close>.\<close>

fun write_fuels :: "string list \<Rightarrow> real \<Rightarrow> string list \<Rightarrow> real list \<Rightarrow> string list" where
  "write_fuels f t (fuel_chem # chems) (fuel_chem_mass_perc # percs) =
     write_fuels
       (f_write f (''fuel='' @ fuel_chem @ '' wt='' @ fmt3 fuel_chem_mass_perc @
          '' t,K='' @ fmt3 t @ ''\<newline>''))
       t chems percs"
| "write_fuels f t chems percs = f"

text \<open>
  \<^verbatim>\<open>create_inp_file\<close>: the strings written, and the exception that ended the call if
  one did. The only operation that can raise on numbers is the division
  \<^verbatim>\<open>inp.pcham/inp.pamb\<close>, evaluated after four lines are written; its result is a
  computed float. \<open>str\<close> is Python's \<^verbatim>\<open>str\<close> on the O/F value (the field is interpolated
  with no format).
\<close>

definition create_inp_file :: "(real \<Rightarrow> string) \<Rightarrow> CEAInputData \<Rightarrow> string list \<times> error option" where
  "create_inp_file str inp =
     (let f = f_write [] ''problem\<newline>'';
          f = f_write f ''rocket\<newline>'';
          eqbr_arg = (if equilibrium inp then ''equilibrium'' else ''frozen nfz=1'');
          f = f_write f (eqbr_arg @ ''\<newline>'');
          f = f_write f (''p,bar='' @ fmt3 (pcham inp) @ ''\<newline>'')
      in case float_truediv (Finite (pcham inp)) (Finite (pamb inp)) of
           Inl e \<Rightarrow> (f, Some e)
         | Inr ratio \<Rightarrow>
           (let f = f_write f (''pip='' @ fmt3_float ratio @ ''\<newline>'');
                f = f_write f (''o/f='' @ str (of_ratio inp) @ ''\<newline>'');
                f = f_write f ''react\<newline>'';
                f = write_fuels f (fuel_initial_temp inp) (fuel_chems inp)
                      (fuel_chem_mass_percs inp);
                f = f_write f (''ox='' @ ox_chem inp @ '' wt 100 t,K '' @
                      fmt3 (ox_initial_temp inp) @ ''\<newline>'');
                f = f_write f ''end''
            in (f, None)))"

subsection \<open>Notions used to state the properties of the writer\<close>

text \<open>The lines of a text: the pieces between line feeds, as \<^verbatim>\<open>s.split('\n')\<close> gives them.\<close>

fun lines_from :: "string \<Rightarrow> string \<Rightarrow> string list" where
  "lines_from cur [] = [cur]"
| "lines_from cur (c # cs) =
     (if c = CHR 0x0A then cur # lines_from [] cs else lines_from (cur @ [c]) cs)"

definition text_lines :: "string \<Rightarrow> string list" where
  "text_lines s = lines_from [] s"

definition newline_free :: "string \<Rightarrow> bool" where
  "newline_free s \<longleftrightarrow> (\<forall>c\<in>set s. c \<noteq> CHR 0x0A)"

text \<open>The lines of the document, without their line feeds, as the format rules give them.\<close>

definition fuel_entry :: "real \<Rightarrow> string \<times> real \<Rightarrow> string" where
  "fuel_entry t cp = ''fuel='' @ fst cp @ '' wt='' @ fmt3 (snd cp) @ '' t,K='' @ fmt3 t"

definition fuel_entries :: "CEAInputData \<Rightarrow> string list" where
  "fuel_entries inp =
     map (fuel_entry (fuel_initial_temp inp)) (zip (fuel_chems inp) (fuel_chem_mass_percs inp))"

definition ox_entry :: "CEAInputData \<Rightarrow> string" where
  "ox_entry inp = ''ox='' @ ox_chem inp @ '' wt 100 t,K '' @ fmt3 (ox_initial_temp inp)"

text \<open>The pressure ratio as the writer computes it, for an ambient pressure that is not 0.\<close>

definition pip_ratio :: "CEAInputData \<Rightarrow> pyfloat" where
  "pip_ratio inp =
     (if pcham inp = 0 then signed_zero (pamb inp < 0)
      else round_double (pcham inp / pamb inp))"

definition head_entries :: "(real \<Rightarrow> string) \<Rightarrow> CEAInputData \<Rightarrow> string list" where
  "head_entries str inp =
     [''problem'', ''rocket'', if equilibrium inp then ''equilibrium'' else ''frozen nfz=1'',
      ''p,bar='' @ fmt3 (pcham inp), ''pip='' @ fmt3_float (pip_ratio inp),
      ''o/f='' @ str (of_ratio inp), ''react'']"

text \<open>
  The end-to-end scenario (20 bar in the chamber, 1 bar outside, O/F 1.5, ethanol at
  100 percent and 298 K, oxygen at 90 K, equilibrium) and variations of it.
  \<open>str_scenario\<close> is Python's \<^verbatim>\<open>str\<close> at the one O/F value these inputs have.
\<close>

definition inp_scenario :: CEAInputData where
  "inp_scenario = \<lparr>pcham = 20, pamb = 1, of_ratio = 3 / 2, fuel_chems = [''C2H5OH''],
     fuel_chem_mass_percs = [100], fuel_initial_temp = 298, ox_chem = ''O2'',
     ox_initial_temp = 90, equilibrium = True\<rparr>"

definition str_scenario :: "real \<Rightarrow> string" where
  "str_scenario x = (if x = 3 / 2 then ''1.5'' else [])"

definition inp_negative :: CEAInputData where
  "inp_negative = inp_scenario\<lparr>pamb := - 1\<rparr>"

definition inp_zero :: CEAInputData where
  "inp_zero = inp_scenario\<lparr>pamb := 0\<rparr>"

definition inp_mismatch :: CEAInputData where
  "inp_mismatch =
     inp_scenario\<lparr>fuel_chems := [''C2H5OH'', ''H2O''], fuel_chem_mass_percs := [100]\<rparr>"

definition inp_injected :: CEAInputData where
  "inp_injected = inp_scenario\<lparr>fuel_chems := [''C2H5OH\<newline>fuel=H2O'']\<rparr>"

definition inp_mismatch_zero :: CEAInputData where
  "inp_mismatch_zero = inp_mismatch\<lparr>pamb := 0\<rparr>"

definition inp_mismatch_injected :: CEAInputData where
  "inp_mismatch_injected =
     inp_scenario\<lparr>fuel_chems := [''C2H5OH\<newline>fuel=H2O'', ''X''], fuel_chem_mass_percs := [100]\<rparr>"

section \<open>plumbing.py: the flow coefficient of a valve\<close>

text \<open>
  \<^verbatim>\<open>a * b\<close> on floats: the IEEE product, which raises nothing; it is nan for a zero
  times an infinity, an infinity when it overflows and a zero when it underflows.
\<close>

definition float_mul :: "pyfloat \<Rightarrow> pyfloat \<Rightarrow> pyfloat" where
  "float_mul a b =
     (if a = NaN \<or> b = NaN then NaN
      else if (is_inf a \<and> is_zero b) \<or> (is_zero a \<and> is_inf b) then NaN
      else if is_inf a \<or> is_inf b then Infinity (sign_bit a \<noteq> sign_bit b)
      else if is_zero a \<or> is_zero b then signed_zero (sign_bit a \<noteq> sign_bit b)
      else round_double (float_value a * float_value b))"

text \<open>
  \<^verbatim>\<open>math.sqrt\<close>: ValueError for a negative number and for the negative infinity, the
  correctly rounded square root otherwise (the square root of a zero is that zero).
\<close>

fun math_sqrt :: "pyfloat \<Rightarrow> error + pyfloat" where
  "math_sqrt (Finite v) =
     (if v < 0 then Inl ValueError else if v = 0 then Inr (Finite 0)
      else Inr (round_double (sqrt v)))"
| "math_sqrt NegZero = Inr NegZero"
| "math_sqrt (Infinity negative) = (if negative then Inl ValueError else Inr (Infinity False))"
| "math_sqrt NaN = Inr NaN"

text \<open>
  \<^verbatim>\<open>valve_flow_coefficient(Vdot, P_in, P_out, T, molar_mass)\<close>. The molar mass of air that
  \<^verbatim>\<open>cp.PropsSI('M', 'air')\<close> returns is the parameter \<open>M_air\<close>. The integer constants are
  converted exactly, the decimal constants are the doubles nearest to them. The five
  products and quotients of \<^verbatim>\<open>Vdot_cfh * P_out / 1.013 * 295 / T\<close> and of the last line
  are taken from left to right, as Python does. \<^verbatim>\<open>T_Rankine\<close> and \<^verbatim>\<open>P_in\<close> are not used.
\<close>

definition valve_flow_coefficient ::
    "pyfloat \<Rightarrow> pyfloat \<Rightarrow> pyfloat \<Rightarrow> pyfloat \<Rightarrow> pyfloat \<Rightarrow> pyfloat \<Rightarrow> error + pyfloat" where
  "valve_flow_coefficient M_air Vdot P_in P_out T molar_mass =
     (case float_truediv molar_mass M_air of
        Inl e \<Rightarrow> Inl e
      | Inr specific_gravity \<Rightarrow>
          let Vdot_cfh = float_mul Vdot (Finite 127133);
              T_Rankine = float_mul T (round_double 1.8);
              P_out_psi = float_mul P_out (round_double 14.504)
          in case float_truediv (float_mul Vdot_cfh P_out) (round_double 1.013) of
               Inl e \<Rightarrow> Inl e
             | Inr q \<Rightarrow>
                 (case float_truediv (float_mul q (Finite 295)) T of
                    Inl e \<Rightarrow> Inl e
                  | Inr Vdot_standard_cfh \<Rightarrow>
                      (case math_sqrt (float_mul specific_gravity T) of
                         Inl e \<Rightarrow> Inl e
                       | Inr sq \<Rightarrow>
                           float_truediv (float_mul Vdot_standard_cfh sq)
                             (float_mul (Finite 816) P_out_psi))))"

text \<open>
  The positive doubles between two powers of two, used to state which inputs keep every
  intermediate result among the normal doubles.
\<close>

fun in_range :: "int \<Rightarrow> int \<Rightarrow> pyfloat \<Rightarrow> bool" where
  "in_range lo hi (Finite v) = (2 powi lo \<le> v \<and> v \<le> 2 powi hi)"
| "in_range lo hi x = False"

section \<open>Properties of the strings and of the loop\<close>

lemmas parser_eval = parse_out_file_def inspected_def readlines_def str_split_def isspace_def
  read_row_def row_of_def next_flag_def float_field_def float_decimal_def unsigned_decimal_def
  digit_of_def CEAOutputData_init_def row_error_def between_markers_def
  out_one_section_def out_two_sections_def out_noisy_def out_gamma_def

text \<open>\<open>startswith\<close> and \<open>contains\<close> are the prefix and the substring tests.\<close>

lemma startswith_iff: "startswith s p \<longleftrightarrow> (\<exists>suf. s = p @ suf)"
  by (induction s p rule: startswith.induct) auto

lemma contains_iff: "contains sub s \<longleftrightarrow> (\<exists>pre suf. s = pre @ sub @ suf)"
proof (induction s)
  case Nil
  show ?case by auto
next
  case (Cons c cs)
  show ?case
  proof
    assume "contains sub (c # cs)"
    then consider "startswith (c # cs) sub" | "contains sub cs" by auto
    then show "\<exists>pre suf. c # cs = pre @ sub @ suf"
    proof cases
      case 1
      then obtain suf where "c # cs = sub @ suf" by (auto simp: startswith_iff)
      then have "c # cs = [] @ sub @ suf" by simp
      then show ?thesis by blast
    next
      case 2
      then obtain pre suf where "cs = pre @ sub @ suf" using Cons.IH by auto
      then have "c # cs = (c # pre) @ sub @ suf" by simp
      then show ?thesis by blast
    qed
  next
    assume "\<exists>pre suf. c # cs = pre @ sub @ suf"
    then obtain pre suf where e: "c # cs = pre @ sub @ suf" by blast
    show "contains sub (c # cs)"
    proof (cases pre)
      case Nil
      with e have "startswith (c # cs) sub" by (auto simp: startswith_iff)
      then show ?thesis by simp
    next
      case (Cons a pre')
      with e have "cs = pre' @ sub @ suf" by simp
      then have "contains sub cs" using Cons.IH by blast
      then show ?thesis by simp
    qed
  qed
qed

lemma split_from_nonempty: "\<forall>t\<in>set (split_from cur s). t \<noteq> []"
  by (induction s arbitrary: cur) auto

text \<open>The loop reads the inspected lines and nothing else.\<close>

lemma scan_lines_read_rows:
  "(case scan_lines flt flag r ls of Inl e \<Rightarrow> Inl e | Inr (f, r') \<Rightarrow> Inr r') =
     read_rows flt r (inspected_from flag ls)"
proof (induction ls arbitrary: flag r)
  case Nil
  show ?case by simp
next
  case (Cons l ls)
  show ?case
  proof (cases flag)
    case True
    then show ?thesis using Cons.IH by (simp split: sum.splits)
  next
    case False
    then show ?thesis using Cons.IH by simp
  qed
qed

lemma parse_out_file_read_rows:
  "parse_out_file flt t = read_rows flt CEAOutputData_init (inspected t)"
  unfolding parse_out_file_def inspected_def by (rule scan_lines_read_rows)

lemma scan_lines_append:
  "scan_lines flt flag r (xs @ ys) =
     (case scan_lines flt flag r xs of Inl e \<Rightarrow> Inl e | Inr (f, r') \<Rightarrow> scan_lines flt f r' ys)"
proof (induction xs arbitrary: flag r)
  case Nil
  show ?case by simp
next
  case (Cons l xs)
  show ?case
  proof (cases "if flag then read_row flt r l else Inr r")
    case (Inl e)
    then show ?thesis by simp
  next
    case (Inr r')
    then show ?thesis using Cons.IH by simp
  qed
qed

lemma read_row_row_of:
  "read_row flt r line =
     (case row_of line of
        None \<Rightarrow> Inr r
      | Some TempRow \<Rightarrow>
          (case float_field flt line 2 of Inl e \<Rightarrow> Inl e | Inr v \<Rightarrow> Inr (r\<lparr>chamber_temp := v\<rparr>))
      | Some GammaRow \<Rightarrow>
          (case float_field flt line 2 of Inl e \<Rightarrow> Inl e
           | Inr v \<Rightarrow> Inr (r\<lparr>throat_gamma := Some v\<rparr>))
      | Some MolarMassRow \<Rightarrow>
          (case float_field flt line 3 of Inl e \<Rightarrow> Inl e
           | Inr v \<Rightarrow> Inr (r\<lparr>throat_molar_mass := Some v\<rparr>))
      | Some CstarRow \<Rightarrow>
          (case float_field flt line 3 of Inl e \<Rightarrow> Inl e | Inr v \<Rightarrow> Inr (r\<lparr>cstar := v\<rparr>))
      | Some IspRow \<Rightarrow>
          (case float_field flt line 3 of Inl e \<Rightarrow> Inl e
           | Inr v \<Rightarrow> Inr (r\<lparr>exhaust_velocity := v\<rparr>)))"
  by (simp add: read_row_def row_of_def)

lemma read_row_error:
  "read_row flt r line = Inl e \<longleftrightarrow> row_error flt line = Some e"
  by (simp add: row_error_def read_row_row_of split: option.splits row.splits sum.splits)

lemma read_row_no_row: "row_of line = None \<Longrightarrow> read_row flt r line = Inr r"
  by (simp add: read_row_row_of)

lemma row_error_no_row: "row_of line = None \<Longrightarrow> row_error flt line = None"
  by (simp add: row_error_def read_row_no_row)

lemma read_row_keeps:
  assumes "read_row flt r line = Inr r'"
  shows "exhaust_gamma r' = exhaust_gamma r"
    and "exhaust_molar_mass r' = exhaust_molar_mass r"
    and "row_of line \<noteq> Some TempRow \<Longrightarrow> chamber_temp r' = chamber_temp r"
    and "row_of line \<noteq> Some CstarRow \<Longrightarrow> cstar r' = cstar r"
    and "row_of line \<noteq> Some IspRow \<Longrightarrow> exhaust_velocity r' = exhaust_velocity r"
    and "row_of line \<noteq> Some GammaRow \<Longrightarrow> throat_gamma r' = throat_gamma r"
    and "row_of line \<noteq> Some MolarMassRow \<Longrightarrow> throat_molar_mass r' = throat_molar_mass r"
    and "row_of line = Some GammaRow \<Longrightarrow> throat_gamma r' \<noteq> None"
    and "row_of line = Some MolarMassRow \<Longrightarrow> throat_molar_mass r' \<noteq> None"
  using assms
  by (auto simp: read_row_row_of split: option.splits row.splits sum.splits)

lemma read_rows_declared:
  "read_rows flt r ls = Inr r' \<Longrightarrow>
     exhaust_gamma r' = exhaust_gamma r \<and> exhaust_molar_mass r' = exhaust_molar_mass r"
proof (induction ls arbitrary: r)
  case Nil
  then show ?case by simp
next
  case (Cons l ls)
  from Cons.prems obtain r1 where r1: "read_row flt r l = Inr r1" "read_rows flt r1 ls = Inr r'"
    by (auto split: sum.splits)
  from Cons.IH [OF r1(2)] read_row_keeps(1,2) [OF r1(1)] show ?case by simp
qed

lemma read_rows_untouched:
  "read_rows flt r ls = Inr r' \<Longrightarrow>
     (Some TempRow \<notin> row_of ` set ls \<longrightarrow> chamber_temp r' = chamber_temp r) \<and>
     (Some CstarRow \<notin> row_of ` set ls \<longrightarrow> cstar r' = cstar r) \<and>
     (Some IspRow \<notin> row_of ` set ls \<longrightarrow> exhaust_velocity r' = exhaust_velocity r) \<and>
     (Some GammaRow \<notin> row_of ` set ls \<longrightarrow> throat_gamma r' = throat_gamma r) \<and>
     (Some MolarMassRow \<notin> row_of ` set ls \<longrightarrow> throat_molar_mass r' = throat_molar_mass r)"
proof (induction ls arbitrary: r)
  case Nil
  then show ?case by simp
next
  case (Cons l ls)
  from Cons.prems obtain r1 where r1: "read_row flt r l = Inr r1" "read_rows flt r1 ls = Inr r'"
    by (auto split: sum.splits)
  note k = read_row_keeps [OF r1(1)]
  from Cons.IH [OF r1(2)] show ?case
    using k(3) k(4) k(5) k(6) k(7) by (auto simp: image_iff)
qed

lemma read_rows_throat:
  "read_rows flt r ls = Inr r' \<Longrightarrow>
     (throat_gamma r' \<noteq> None \<longleftrightarrow> throat_gamma r \<noteq> None \<or> Some GammaRow \<in> row_of ` set ls) \<and>
     (throat_molar_mass r' \<noteq> None \<longleftrightarrow>
        throat_molar_mass r \<noteq> None \<or> Some MolarMassRow \<in> row_of ` set ls)"
proof (induction ls arbitrary: r)
  case Nil
  then show ?case by simp
next
  case (Cons l ls)
  from Cons.prems obtain r1 where r1: "read_row flt r l = Inr r1" "read_rows flt r1 ls = Inr r'"
    by (auto split: sum.splits)
  note k = read_row_keeps [OF r1(1)]
  have g: "throat_gamma r1 \<noteq> None \<longleftrightarrow> throat_gamma r \<noteq> None \<or> row_of l = Some GammaRow"
    using k(6) k(8) by (cases "row_of l = Some GammaRow") auto
  have m: "throat_molar_mass r1 \<noteq> None \<longleftrightarrow>
      throat_molar_mass r \<noteq> None \<or> row_of l = Some MolarMassRow"
    using k(7) k(9) by (cases "row_of l = Some MolarMassRow") auto
  from Cons.IH [OF r1(2)] g m show ?case
    by (auto simp: image_iff)
qed

lemma read_rows_returns:
  "\<forall>l\<in>set ls. row_error flt l = None \<Longrightarrow> \<exists>r'. read_rows flt r ls = Inr r'"
proof (induction ls arbitrary: r)
  case Nil
  show ?case by simp
next
  case (Cons l ls)
  have "row_error flt l = None" using Cons.prems by simp
  then obtain r1 where r1: "read_row flt r l = Inr r1"
    using read_row_error [of flt r l] by (cases "read_row flt r l") auto
  from Cons.IH [of r1] Cons.prems obtain r' where "read_rows flt r1 ls = Inr r'" by auto
  with r1 show ?case by simp
qed

text \<open>An exception of the parser is the exception of an inspected row.\<close>

lemma read_rows_fails:
  "read_rows flt r ls = Inl e \<Longrightarrow> \<exists>l\<in>set ls. row_error flt l = Some e"
proof (induction ls arbitrary: r)
  case Nil
  then show ?case by simp
next
  case (Cons l ls)
  show ?case
  proof (cases "read_row flt r l")
    case (Inl e')
    with Cons.prems have "e' = e" by simp
    with Inl show ?thesis by (simp add: read_row_error)
  next
    case (Inr r1)
    with Cons.prems have "read_rows flt r1 ls = Inl e" by simp
    from Cons.IH [OF this] show ?thesis by auto
  qed
qed

text \<open>
  In an output with one results section, the inspected lines are the lines after the
  line with the start marker, up to and including the line with the end marker.
\<close>

lemma inspected_from_append:
  "inspected_from flag (xs @ ys) =
     inspected_from flag xs @ inspected_from (fold (\<lambda>l f. next_flag f l) xs flag) ys"
  by (induction xs arbitrary: flag) simp_all

lemma outside_stays:
  "\<forall>l\<in>set ls. \<not> contains ''THEORETICAL ROCKET PERFORMANCE'' l \<Longrightarrow>
     inspected_from False ls = [] \<and> fold (\<lambda>l f. next_flag f l) ls False = False"
  by (induction ls) (simp_all add: next_flag_def)

lemma inside_stays:
  "\<forall>l\<in>set ls. contains ''PRODUCTS WHICH WERE CONSIDERED'' l \<longrightarrow>
       contains ''THEORETICAL ROCKET PERFORMANCE'' l \<Longrightarrow>
     inspected_from True ls = ls \<and> fold (\<lambda>l f. next_flag f l) ls True = True"
  by (induction ls) (auto simp: next_flag_def)

lemma inspected_single_section:
  assumes pre: "\<forall>l\<in>set pre. \<not> contains ''THEORETICAL ROCKET PERFORMANCE'' l"
    and s: "contains ''THEORETICAL ROCKET PERFORMANCE'' s"
    and mid: "\<forall>l\<in>set mid. contains ''PRODUCTS WHICH WERE CONSIDERED'' l \<longrightarrow>
       contains ''THEORETICAL ROCKET PERFORMANCE'' l"
    and e: "contains ''PRODUCTS WHICH WERE CONSIDERED'' e"
      "\<not> contains ''THEORETICAL ROCKET PERFORMANCE'' e"
    and post: "\<forall>l\<in>set post. \<not> contains ''THEORETICAL ROCKET PERFORMANCE'' l"
  shows "inspected_from False (pre @ s # mid @ e # post) = mid @ [e]"
proof -
  have "inspected_from False (pre @ s # mid @ e # post) = inspected_from False (s # mid @ e # post)"
    using outside_stays [OF pre] by (simp add: inspected_from_append)
  also have "\<dots> = inspected_from True (mid @ e # post)"
    using s by (simp add: next_flag_def)
  also have "\<dots> = mid @ inspected_from True (e # post)"
    using inside_stays [OF mid] by (simp add: inspected_from_append)
  also have "\<dots> = mid @ [e]"
    using e outside_stays [OF post] by (simp add: next_flag_def)
  finally show ?thesis .
qed

section \<open>Claims about the parser\<close>

text \<open>
  C1, as the code has it. A line read inside the results section is split on whitespace
  and one field of it is converted: field 2 for the temperature row and for the
  \<^verbatim>\<open>GAMMAs\<close> row, field 3 for the molar mass, the characteristic velocity and the
  exhaust velocity. The first marker of the chain decides the row, a line with no marker
  changes nothing, a missing field raises IndexError and a field that is not a number
  ValueError.
\<close>

theorem parse_row_field_indices:
  assumes "scan_lines flt False CEAOutputData_init pre = Inr (True, r)"
  shows "scan_lines flt False CEAOutputData_init (pre @ [line]) =
     (case row_of line of
        None \<Rightarrow> Inr (next_flag True line, r)
      | Some TempRow \<Rightarrow>
          (case float_field flt line 2 of Inl e \<Rightarrow> Inl e
           | Inr v \<Rightarrow> Inr (next_flag True line, r\<lparr>chamber_temp := v\<rparr>))
      | Some GammaRow \<Rightarrow>
          (case float_field flt line 2 of Inl e \<Rightarrow> Inl e
           | Inr v \<Rightarrow> Inr (next_flag True line, r\<lparr>throat_gamma := Some v\<rparr>))
      | Some MolarMassRow \<Rightarrow>
          (case float_field flt line 3 of Inl e \<Rightarrow> Inl e
           | Inr v \<Rightarrow> Inr (next_flag True line, r\<lparr>throat_molar_mass := Some v\<rparr>))
      | Some CstarRow \<Rightarrow>
          (case float_field flt line 3 of Inl e \<Rightarrow> Inl e
           | Inr v \<Rightarrow> Inr (next_flag True line, r\<lparr>cstar := v\<rparr>))
      | Some IspRow \<Rightarrow>
          (case float_field flt line 3 of Inl e \<Rightarrow> Inl e
           | Inr v \<Rightarrow> Inr (next_flag True line, r\<lparr>exhaust_velocity := v\<rparr>)))
   \<and> (\<forall>i v. float_field flt line i = Inr v \<longleftrightarrow>
          i < length (str_split line) \<and> flt (str_split line ! i) = Some v)
   \<and> (\<forall>i. float_field flt line i = Inl IndexError \<longleftrightarrow> length (str_split line) \<le> i)"
  using assms
  by (auto simp: scan_lines_append read_row_row_of float_field_def Let_def
      split: sum.splits option.splits row.splits)

theorem parse_row_field_indices_witness:
  "scan_lines float_decimal False CEAOutputData_init [''THEORETICAL ROCKET PERFORMANCE\<newline>'']
     = Inr (True, CEAOutputData_init) \<and>
   scan_lines float_decimal False CEAOutputData_init
     [''THEORETICAL ROCKET PERFORMANCE\<newline>'', '' M, (1/n) 20.5 21.5 22.5\<newline>'']
     = Inr (True, CEAOutputData_init\<lparr>throat_molar_mass := Some (43 / 2)\<rparr>)"
proof -
  have h: "scan_lines float_decimal False CEAOutputData_init
      [''THEORETICAL ROCKET PERFORMANCE\<newline>''] = Inr (True, CEAOutputData_init)"
    by (simp add: parser_eval)
  from parse_row_field_indices [OF h, of "'' M, (1/n) 20.5 21.5 22.5\<newline>''"] h
  show ?thesis by (simp add: parser_eval)
qed

text \<open>
  C1 as it is worded (field 3 for the specific-heat ratio) fails: on the row
  \<^verbatim>\<open>GAMMAs 1.25 1.5 1.75\<close> the parser stores 1.5, which is field 2; field 3 is 1.75.
\<close>

theorem gamma_row_field_counterexample:
  "parse_out_file float_decimal out_gamma =
     Inr (CEAOutputData_init\<lparr>throat_gamma := Some (3 / 2)\<rparr>) \<and>
   str_split '' GAMMAs 1.25 1.5 1.75\<newline>'' ! 2 = ''1.5'' \<and>
   str_split '' GAMMAs 1.25 1.5 1.75\<newline>'' ! 3 = ''1.75'' \<and>
   float_decimal ''1.75'' = Some (7 / 4)"
  by (simp add: parser_eval)

text \<open>
  C3, as the code has it. Two outputs with the same inspected lines (in every results
  section: the lines after a line with the start marker, up to and including the next
  line with the end marker) give the same result, an exception included: no other line
  takes part, whatever it contains.
\<close>

theorem parse_depends_on_inspected_lines:
  "inspected out1 = inspected out2 \<Longrightarrow> parse_out_file flt out1 = parse_out_file flt out2"
  by (simp add: parse_out_file_read_rows)

theorem parse_depends_on_inspected_lines_witness:
  "inspected out_one_section = inspected out_noisy \<and>
   parse_out_file float_decimal out_one_section = parse_out_file float_decimal out_noisy"
proof -
  have h: "inspected out_one_section = inspected out_noisy"
    by (simp add: parser_eval)
  from h parse_depends_on_inspected_lines [OF h, of float_decimal] show ?thesis by simp
qed

text \<open>
  C3 as it is worded fails: a second start marker after the end marker opens the window
  again. The two outputs below have the same lines between the first start marker and
  the end marker that follows it, and the parser returns 3800.5 for one and 100.5 for
  the other.
\<close>

theorem second_section_counterexample:
  "between_markers (readlines out_one_section) = between_markers (readlines out_two_sections) \<and>
   parse_out_file float_decimal out_one_section =
     Inr (CEAOutputData_init\<lparr>chamber_temp := 7601 / 2\<rparr>) \<and>
   parse_out_file float_decimal out_two_sections =
     Inr (CEAOutputData_init\<lparr>chamber_temp := 201 / 2\<rparr>)"
  by (simp add: parser_eval)

text \<open>
  C6. When every inspected line that is one of the five rows can be read, the parser
  returns a record, whichever rows are there; in it every declared field whose row was not
  inspected is 0, and the attributes \<^verbatim>\<open>throat_gamma\<close> and \<^verbatim>\<open>throat_molar_mass\<close> do
  not exist when their rows were not inspected.
\<close>

theorem missing_rows_keep_defaults:
  assumes "\<forall>l\<in>set (inspected out_text). row_of l \<noteq> None \<longrightarrow> row_error flt l = None"
  shows "\<exists>r. parse_out_file flt out_text = Inr r \<and>
     (Some TempRow \<notin> row_of ` set (inspected out_text) \<longrightarrow> chamber_temp r = 0) \<and>
     (Some GammaRow \<notin> row_of ` set (inspected out_text) \<longrightarrow>
        exhaust_gamma r = 0 \<and> throat_gamma r = None) \<and>
     (Some MolarMassRow \<notin> row_of ` set (inspected out_text) \<longrightarrow>
        exhaust_molar_mass r = 0 \<and> throat_molar_mass r = None) \<and>
     (Some CstarRow \<notin> row_of ` set (inspected out_text) \<longrightarrow> cstar r = 0) \<and>
     (Some IspRow \<notin> row_of ` set (inspected out_text) \<longrightarrow> exhaust_velocity r = 0)"
proof -
  have "\<forall>l\<in>set (inspected out_text). row_error flt l = None"
    using assms row_error_no_row by blast
  from read_rows_returns [OF this] obtain r
    where r: "read_rows flt CEAOutputData_init (inspected out_text) = Inr r" by blast
  have p: "parse_out_file flt out_text = Inr r"
    by (simp add: parse_out_file_read_rows r)
  have "exhaust_gamma r = 0" "exhaust_molar_mass r = 0"
    using read_rows_declared [OF r] by (simp_all add: CEAOutputData_init_def)
  moreover have
    "Some TempRow \<notin> row_of ` set (inspected out_text) \<longrightarrow> chamber_temp r = 0"
    "Some GammaRow \<notin> row_of ` set (inspected out_text) \<longrightarrow> throat_gamma r = None"
    "Some MolarMassRow \<notin> row_of ` set (inspected out_text) \<longrightarrow> throat_molar_mass r = None"
    "Some CstarRow \<notin> row_of ` set (inspected out_text) \<longrightarrow> cstar r = 0"
    "Some IspRow \<notin> row_of ` set (inspected out_text) \<longrightarrow> exhaust_velocity r = 0"
    using read_rows_untouched [OF r] by (simp_all add: CEAOutputData_init_def)
  ultimately show ?thesis using p by blast
qed

theorem missing_rows_keep_defaults_witness:
  "\<exists>r. parse_out_file float_decimal out_noisy = Inr r \<and> chamber_temp r = 7601 / 2 \<and>
      exhaust_gamma r = 0 \<and> throat_gamma r = None \<and> exhaust_molar_mass r = 0 \<and>
      throat_molar_mass r = None \<and> cstar r = 0 \<and> exhaust_velocity r = 0"
proof -
  have h: "\<forall>l\<in>set (inspected out_noisy). row_of l \<noteq> None \<longrightarrow> row_error float_decimal l = None"
    by (simp add: parser_eval)
  have rows: "row_of ` set (inspected out_noisy) = {None, Some TempRow}"
    by (simp add: parser_eval)
  have t: "parse_out_file float_decimal out_noisy =
      Inr (CEAOutputData_init\<lparr>chamber_temp := 7601 / 2\<rparr>)"
    by (simp add: parser_eval)
  from missing_rows_keep_defaults [OF h] rows t show ?thesis
    by (simp add: CEAOutputData_init_def)
qed

text \<open>
  C10. In every record the parser returns, the declared fields \<^verbatim>\<open>exhaust_gamma\<close> and
  \<^verbatim>\<open>exhaust_molar_mass\<close> are 0: the values of the two rows go to the attributes
  \<^verbatim>\<open>throat_gamma\<close> and \<^verbatim>\<open>throat_molar_mass\<close>, which exist exactly when their rows
  were inspected.
\<close>

theorem exhaust_fields_never_written:
  assumes "parse_out_file flt out_text = Inr r"
  shows "exhaust_gamma r = 0 \<and> exhaust_molar_mass r = 0 \<and>
     (throat_gamma r \<noteq> None \<longleftrightarrow> Some GammaRow \<in> row_of ` set (inspected out_text)) \<and>
     (throat_molar_mass r \<noteq> None \<longleftrightarrow> Some MolarMassRow \<in> row_of ` set (inspected out_text))"
proof -
  have r: "read_rows flt CEAOutputData_init (inspected out_text) = Inr r"
    using assms by (simp add: parse_out_file_read_rows)
  from read_rows_declared [OF r] read_rows_throat [OF r]
  show ?thesis by (simp add: CEAOutputData_init_def)
qed

theorem exhaust_fields_never_written_witness:
  "parse_out_file float_decimal out_gamma =
     Inr (CEAOutputData_init\<lparr>throat_gamma := Some (3 / 2)\<rparr>) \<and>
   exhaust_gamma (CEAOutputData_init\<lparr>throat_gamma := Some (3 / 2)\<rparr>) = 0 \<and>
   exhaust_molar_mass (CEAOutputData_init\<lparr>throat_gamma := Some (3 / 2)\<rparr>) = 0 \<and>
   Some GammaRow \<in> row_of ` set (inspected out_gamma) \<and>
   Some MolarMassRow \<notin> row_of ` set (inspected out_gamma)"
proof -
  have h: "parse_out_file float_decimal out_gamma =
      Inr (CEAOutputData_init\<lparr>throat_gamma := Some (3 / 2)\<rparr>)"
    by (simp add: parser_eval)
  from exhaust_fields_never_written [OF h] h show ?thesis
    by (simp add: CEAOutputData_init_def)
qed

section \<open>Properties of the rounding and of the writer\<close>

text \<open>The exponent found by the search, for a number between two powers of 2.\<close>

lemma exp_search_eq:
  "e \<le> k \<Longrightarrow> 2 powi k \<le> a \<Longrightarrow> a < 2 powi (k + 1) \<Longrightarrow> nat (k - e) \<le> n \<Longrightarrow>
     exp_search n e a = k"
proof (induction n arbitrary: e)
  case 0
  then show ?case by simp
next
  case (Suc n)
  show ?case
  proof (cases "e = k")
    case True
    with Suc.prems show ?thesis by simp
  next
    case False
    with Suc.prems have lt: "e + 1 \<le> k" by simp
    have "(2::real) powi (e + 1) \<le> 2 powi k"
      using lt by (intro power_int_increasing) simp_all
    with Suc.prems have "\<not> a < 2 powi (e + 1)" by simp
    moreover have "exp_search n (e + 1) a = k"
      using Suc.prems lt by (intro Suc.IH) simp_all
    ultimately show ?thesis by simp
  qed
qed

lemma double_exponent_eq:
  "- 1022 \<le> k \<Longrightarrow> k \<le> 1023 \<Longrightarrow> 2 powi k \<le> a \<Longrightarrow> a < 2 powi (k + 1) \<Longrightarrow>
     double_exponent a = k"
  unfolding double_exponent_def by (rule exp_search_eq) simp_all

lemma double_exponent_subnormal: "a < 2 powi (- 1021) \<Longrightarrow> double_exponent a = - 1022"
  unfolding double_exponent_def by (simp add: numeral_eq_Suc)

text \<open>The quotients of the concrete cases below, as doubles.\<close>

lemma round_double_20: "round_double 20 = Finite 20" "round_double (- 20) = Finite (- 20)"
proof -
  have "double_exponent 20 = 4" by (rule double_exponent_eq) simp_all
  then show "round_double 20 = Finite 20" "round_double (- 20) = Finite (- 20)"
    by (simp_all add: round_double_def round_half_even_def Let_def)
qed




lemmas fmt3_eval = fmt3_def round_half_even_def digit_char_def digits.simps

lemmas writer_eval = create_inp_file_def f_write_def fmt3_eval float_truediv_def signed_zero_def
  round_double_20 text_lines_def inp_scenario_def str_scenario_def inp_negative_def inp_zero_def
  inp_mismatch_def inp_injected_def inp_mismatch_zero_def inp_mismatch_injected_def

lemma newline_free_Nil [simp]: "newline_free []"
  by (simp add: newline_free_def)

lemma newline_free_Cons [simp]:
  "newline_free (c # cs) \<longleftrightarrow> c \<noteq> CHR 0x0A \<and> newline_free cs"
  by (simp add: newline_free_def)

lemma newline_free_append [simp]:
  "newline_free (a @ b) \<longleftrightarrow> newline_free a \<and> newline_free b"
  by (auto simp: newline_free_def)

lemma digit_char_in: "d < 10 \<Longrightarrow> digit_char d \<in> set ''0123456789''"
  unfolding digit_char_def by (rule nth_mem) simp

lemma digits_chars: "set (digits n) \<subseteq> set ''0123456789''"
proof (induction n rule: digits.induct)
  case (1 n)
  show ?case
  proof (cases "n < 10")
    case True
    then show ?thesis using digit_char_in [of n] by (subst digits.simps) simp
  next
    case False
    have "digit_char (n mod 10) \<in> set ''0123456789''" by (rule digit_char_in) simp
    with False 1 show ?thesis by (subst digits.simps) simp
  qed
qed

lemma newline_free_digits: "newline_free (digits n)"
  using digits_chars [of n] unfolding newline_free_def by auto

lemma newline_free_digit_char: "d < 10 \<Longrightarrow> digit_char d \<noteq> CHR 0x0A"
  using digit_char_in [of d] by auto

text \<open>A formatted number has no line feed.\<close>

lemma newline_free_fmt3 [simp]: "newline_free (fmt3 x)"
proof -
  have "digit_char (n mod 10) \<noteq> CHR 0x0A" for n
    by (rule newline_free_digit_char) simp
  then show ?thesis
    using newline_free_digits by (simp add: fmt3_def Let_def)
qed

lemma newline_free_fmt3_float [simp]: "newline_free (fmt3_float q)"
  by (cases q) simp_all

text \<open>The division of the writer raises for a zero divisor and only then.\<close>

lemma float_truediv_inputs:
  "float_truediv (Finite (pcham inp)) (Finite (pamb inp)) =
     (if pamb inp = 0 then Inl ZeroDivisionError else Inr (pip_ratio inp))"
  by (simp add: float_truediv_def pip_ratio_def)

lemma float_truediv_zero: "float_truediv a (Finite 0) = Inl ZeroDivisionError"
  by (simp add: float_truediv_def)

text \<open>The loop writes one line for each pair of the zipped lists, in order.\<close>

lemma write_fuels_eq:
  "write_fuels f t chems percs = f @ map (\<lambda>cp. fuel_entry t cp @ ''\<newline>'') (zip chems percs)"
  by (induction f t chems percs rule: write_fuels.induct) (simp_all add: f_write_def fuel_entry_def)

lemma create_inp_file_ok:
  assumes "pamb inp \<noteq> 0"
  shows "create_inp_file str inp =
     (map (\<lambda>b. b @ ''\<newline>'') (head_entries str inp @ fuel_entries inp @ [ox_entry inp]) @
        [''end''], None)"
  using assms
  by (simp add: create_inp_file_def float_truediv_inputs write_fuels_eq f_write_def
      head_entries_def fuel_entries_def ox_entry_def Let_def)

lemma create_inp_file_zero:
  assumes "pamb inp = 0"
  shows "create_inp_file str inp =
     ([''problem\<newline>'', ''rocket\<newline>'',
       (if equilibrium inp then ''equilibrium'' else ''frozen nfz=1'') @ ''\<newline>'',
       ''p,bar='' @ fmt3 (pcham inp) @ ''\<newline>''], Some ZeroDivisionError)"
  using assms by (simp add: create_inp_file_def float_truediv_zero f_write_def Let_def)

lemma lines_from_entry:
  "newline_free b \<Longrightarrow> lines_from cur (b @ CHR 0x0A # rest) = (cur @ b) # lines_from [] rest"
  by (induction b arbitrary: cur) simp_all

lemma lines_from_last: "newline_free b \<Longrightarrow> lines_from cur b = [cur @ b]"
  by (induction b arbitrary: cur) simp_all

lemma text_lines_prefix:
  "\<forall>b\<in>set bs. newline_free b \<Longrightarrow>
     text_lines (concat (map (\<lambda>b. b @ ''\<newline>'') bs) @ rest) = bs @ text_lines rest"
  unfolding text_lines_def
proof (induction bs)
  case Nil
  then show ?case by simp
next
  case (Cons b bs)
  then show ?case using lines_from_entry [of b "[]"] by simp
qed

lemma text_lines_entries:
  assumes "\<forall>b\<in>set bs. newline_free b" and "newline_free final"
  shows "text_lines (concat (map (\<lambda>b. b @ ''\<newline>'') bs @ [final])) = bs @ [final]"
  using text_lines_prefix [OF assms(1), of final] lines_from_last [OF assms(2), of "[]"]
  by (simp add: text_lines_def)

lemma startswith_append [simp]: "startswith (p @ s) p"
  by (induction p) simp_all

lemma filter_fuel_entries:
  "filter (\<lambda>l. startswith l ''fuel='') (fuel_entries inp) = fuel_entries inp"
  by (simp add: fuel_entries_def fuel_entry_def filter_map o_def)

lemma filter_fuel_writes:
  "filter (\<lambda>l. startswith l ''fuel='') (map (\<lambda>b. b @ ''\<newline>'') (fuel_entries inp)) =
     map (\<lambda>b. b @ ''\<newline>'') (fuel_entries inp)"
  by (simp add: fuel_entries_def fuel_entry_def filter_map o_def)

lemma filter_ox_fuel_entries:
  "filter (\<lambda>l. startswith l ''ox='') (fuel_entries inp) = []"
  by (simp add: fuel_entries_def fuel_entry_def filter_map o_def)

text \<open>Only the names that have a percentage are written.\<close>

lemma newline_free_fuel_entries:
  assumes "\<forall>c\<in>set (take (length (fuel_chem_mass_percs inp)) (fuel_chems inp)). newline_free c"
  shows "\<forall>b\<in>set (fuel_entries inp). newline_free b"
proof
  fix b
  assume "b \<in> set (fuel_entries inp)"
  then obtain c p where cp: "(c, p) \<in> set (zip (fuel_chems inp) (fuel_chem_mass_percs inp))"
    and b: "b = fuel_entry (fuel_initial_temp inp) (c, p)"
    by (auto simp: fuel_entries_def)
  from cp obtain i where i: "i < length (fuel_chems inp)" "i < length (fuel_chem_mass_percs inp)"
    "c = fuel_chems inp ! i"
    by (auto simp: set_zip)
  then have "c \<in> set (take (length (fuel_chem_mass_percs inp)) (fuel_chems inp))"
    by (auto simp: in_set_conv_nth intro!: exI [of _ i])
  with assms have "newline_free c" by blast
  with b show "newline_free b" by (simp add: fuel_entry_def)
qed

lemma newline_free_entries:
  assumes "newline_free (str (of_ratio inp))"
    and "\<forall>c\<in>set (take (length (fuel_chem_mass_percs inp)) (fuel_chems inp)). newline_free c"
    and "newline_free (ox_chem inp)"
  shows "\<forall>b\<in>set (head_entries str inp @ fuel_entries inp @ [ox_entry inp]). newline_free b"
proof -
  have "\<forall>b\<in>set (head_entries str inp). newline_free b"
    using assms(1) by (simp add: head_entries_def)
  moreover have "\<forall>b\<in>set (fuel_entries inp). newline_free b"
    using assms(2) by (rule newline_free_fuel_entries)
  moreover have "newline_free (ox_entry inp)"
    using assms(3) by (simp add: ox_entry_def)
  ultimately show ?thesis by auto
qed

text \<open>The lines of the document, when no interpolated string has a line feed.\<close>

lemma document_lines:
  assumes "pamb inp \<noteq> 0"
    and "newline_free (str (of_ratio inp))"
    and "\<forall>c\<in>set (take (length (fuel_chem_mass_percs inp)) (fuel_chems inp)). newline_free c"
    and "newline_free (ox_chem inp)"
  shows "text_lines (concat (fst (create_inp_file str inp))) =
     head_entries str inp @ fuel_entries inp @ [ox_entry inp] @ [''end'']"
proof -
  have nf: "\<forall>b\<in>set (head_entries str inp @ fuel_entries inp @ [ox_entry inp]). newline_free b"
    using assms(2-4) by (rule newline_free_entries)
  show ?thesis
    using text_lines_entries [OF nf, of "''end''"] by (simp add: create_inp_file_ok [OF assms(1)])
qed

lemma filter_fuel_document:
  "filter (\<lambda>l. startswith l ''fuel='')
     (head_entries str inp @ fuel_entries inp @ [ox_entry inp] @ [''end'']) = fuel_entries inp"
  by (simp add: filter_fuel_entries) (simp add: head_entries_def ox_entry_def)



section \<open>Claims about the writer\<close>

text \<open>
  C2, as the code has it. When the two fuel lists have the same length, the ambient
  pressure is not zero and neither the O/F text nor a chemical name contains a line
  feed, the writer returns normally and the lines of the document that start with
  \<^verbatim>\<open>fuel=\<close> are one per fuel constituent, in the order of the lists; one line starts
  with \<^verbatim>\<open>ox=\<close>; the last line is \<^verbatim>\<open>end\<close> and the text stops there.
\<close>

theorem inp_file_lines:
  assumes "length (fuel_chems inp) = length (fuel_chem_mass_percs inp)"
    and "pamb inp \<noteq> 0"
    and "newline_free (str (of_ratio inp))"
    and "\<forall>c\<in>set (fuel_chems inp). newline_free c"
    and "newline_free (ox_chem inp)"
  shows "\<exists>f. create_inp_file str inp = (f, None) \<and>
     filter (\<lambda>l. startswith l ''fuel='') (text_lines (concat f)) = fuel_entries inp \<and>
     length (fuel_entries inp) = length (fuel_chems inp) \<and>
     (\<forall>i<length (fuel_chems inp). fuel_entries inp ! i =
        ''fuel='' @ fuel_chems inp ! i @ '' wt='' @ fmt3 (fuel_chem_mass_percs inp ! i) @
        '' t,K='' @ fmt3 (fuel_initial_temp inp)) \<and>
     filter (\<lambda>l. startswith l ''ox='') (text_lines (concat f)) =
       [''ox='' @ ox_chem inp @ '' wt 100 t,K '' @ fmt3 (ox_initial_temp inp)] \<and>
     last (text_lines (concat f)) = ''end'' \<and>
     (\<exists>body. concat f = body @ ''\<newline>end'')"
proof -
  let ?bs = "head_entries str inp @ fuel_entries inp @ [ox_entry inp]"
  let ?f = "map (\<lambda>b. b @ ''\<newline>'') ?bs @ [''end'']"
  have f: "create_inp_file str inp = (?f, None)"
    by (rule create_inp_file_ok [OF assms(2)])
  have names: "\<forall>c\<in>set (take (length (fuel_chem_mass_percs inp)) (fuel_chems inp)). newline_free c"
    using assms(1,4) by simp
  have nf: "\<forall>b\<in>set ?bs. newline_free b"
    using assms(3) names assms(5) by (rule newline_free_entries)
  have tl: "text_lines (concat ?f) = ?bs @ [''end'']"
    by (rule text_lines_entries [OF nf]) simp
  have fu: "filter (\<lambda>l. startswith l ''fuel='') (?bs @ [''end'']) = fuel_entries inp"
    by (simp add: filter_fuel_entries) (simp add: head_entries_def ox_entry_def)
  have ox: "filter (\<lambda>l. startswith l ''ox='') (?bs @ [''end'']) = [ox_entry inp]"
    by (simp add: filter_ox_fuel_entries) (simp add: head_entries_def ox_entry_def)
  have len: "length (fuel_entries inp) = length (fuel_chems inp)"
    using assms(1) by (simp add: fuel_entries_def)
  have nth: "\<forall>i<length (fuel_chems inp). fuel_entries inp ! i =
        ''fuel='' @ fuel_chems inp ! i @ '' wt='' @ fmt3 (fuel_chem_mass_percs inp ! i) @
        '' t,K='' @ fmt3 (fuel_initial_temp inp)"
    using assms(1) by (simp add: fuel_entries_def fuel_entry_def)
  have body: "concat ?f = (concat (map (\<lambda>b. b @ ''\<newline>'') (head_entries str inp @ fuel_entries inp))
      @ ox_entry inp) @ ''\<newline>end''"
    by simp
  show ?thesis
    using f tl fu ox len nth body by (simp add: ox_entry_def del: concat_append map_append)
qed

theorem inp_file_lines_witness:
  "text_lines (concat (fst (create_inp_file str_scenario inp_scenario))) =
     [''problem'', ''rocket'', ''equilibrium'', ''p,bar=20.000'', ''pip=20.000'', ''o/f=1.5'',
      ''react'', ''fuel=C2H5OH wt=100.000 t,K=298.000'', ''ox=O2 wt 100 t,K 90.000'', ''end''] \<and>
   filter (\<lambda>l. startswith l ''fuel='')
     (text_lines (concat (fst (create_inp_file str_scenario inp_scenario)))) =
     fuel_entries inp_scenario \<and>
   length (fuel_entries inp_scenario) = 1"
proof -
  have h: "length (fuel_chems inp_scenario) = length (fuel_chem_mass_percs inp_scenario)"
    "pamb inp_scenario \<noteq> 0" "newline_free (str_scenario (of_ratio inp_scenario))"
    "\<forall>c\<in>set (fuel_chems inp_scenario). newline_free c" "newline_free (ox_chem inp_scenario)"
    by (simp_all add: inp_scenario_def str_scenario_def)
  have t: "text_lines (concat (fst (create_inp_file str_scenario inp_scenario))) =
     [''problem'', ''rocket'', ''equilibrium'', ''p,bar=20.000'', ''pip=20.000'', ''o/f=1.5'',
      ''react'', ''fuel=C2H5OH wt=100.000 t,K=298.000'', ''ox=O2 wt 100 t,K 90.000'', ''end'']"
    by (simp add: writer_eval)
  from inp_file_lines [where str = str_scenario and inp = inp_scenario, OF h] obtain f where
    "create_inp_file str_scenario inp_scenario = (f, None)"
    "filter (\<lambda>l. startswith l ''fuel='') (text_lines (concat f)) = fuel_entries inp_scenario"
    "length (fuel_entries inp_scenario) = length (fuel_chems inp_scenario)"
    by blast
  then have "filter (\<lambda>l. startswith l ''fuel='')
       (text_lines (concat (fst (create_inp_file str_scenario inp_scenario)))) =
       fuel_entries inp_scenario"
    and "length (fuel_entries inp_scenario) = 1"
    by (simp_all add: inp_scenario_def)
  with t show ?thesis by blast
qed

text \<open>
  C2 as it is worded fails: a fuel name with a line feed in it is written as it is. With
  the one constituent \<^verbatim>\<open>C2H5OH\nfuel=H2O\<close> and one percentage, the writer returns
  normally and two lines of the document start with \<^verbatim>\<open>fuel=\<close>.
\<close>

theorem fuel_name_line_feed_counterexample:
  "length (fuel_chems inp_injected) = length (fuel_chem_mass_percs inp_injected) \<and>
   length (fuel_chems inp_injected) = 1 \<and>
   snd (create_inp_file str_scenario inp_injected) = None \<and>
   filter (\<lambda>l. startswith l ''fuel='')
     (text_lines (concat (fst (create_inp_file str_scenario inp_injected)))) =
     [''fuel=C2H5OH'', ''fuel=H2O wt=100.000 t,K=298.000'']"
  by (simp add: writer_eval)




text \<open>
  C5, as the code has it. With fuel lists of different lengths the writer raises nothing
  on their account: it returns normally exactly when the ambient pressure is not zero, as
  with any lists. When it returns, the loop has written as many \<^verbatim>\<open>fuel=\<close> lines as the
  shorter list has entries, the i-th made of the i-th name and the i-th percentage; they
  are the lines of the document that start with \<^verbatim>\<open>fuel=\<close> when neither the O/F text,
  nor a name that has a percentage, nor the oxidizer name contains a line feed.
\<close>

theorem fuel_lines_truncate:
  assumes "length (fuel_chems inp) \<noteq> length (fuel_chem_mass_percs inp)"
  shows "(snd (create_inp_file str inp) = None \<longleftrightarrow> pamb inp \<noteq> 0) \<and>
     (pamb inp \<noteq> 0 \<longrightarrow>
        filter (\<lambda>w. startswith w ''fuel='') (fst (create_inp_file str inp)) =
          map (\<lambda>b. b @ ''\<newline>'') (fuel_entries inp)) \<and>
     length (fuel_entries inp) = min (length (fuel_chems inp)) (length (fuel_chem_mass_percs inp)) \<and>
     (\<forall>i < min (length (fuel_chems inp)) (length (fuel_chem_mass_percs inp)).
        fuel_entries inp ! i =
          ''fuel='' @ fuel_chems inp ! i @ '' wt='' @ fmt3 (fuel_chem_mass_percs inp ! i) @
          '' t,K='' @ fmt3 (fuel_initial_temp inp)) \<and>
     (pamb inp \<noteq> 0 \<and> newline_free (str (of_ratio inp)) \<and>
      (\<forall>c\<in>set (take (length (fuel_chem_mass_percs inp)) (fuel_chems inp)). newline_free c) \<and>
      newline_free (ox_chem inp) \<longrightarrow>
        filter (\<lambda>l. startswith l ''fuel='') (text_lines (concat (fst (create_inp_file str inp)))) =
          fuel_entries inp)"
proof -
  have a: "snd (create_inp_file str inp) = None \<longleftrightarrow> pamb inp \<noteq> 0"
    by (cases "pamb inp = 0") (simp_all add: create_inp_file_zero create_inp_file_ok)
  have b: "filter (\<lambda>w. startswith w ''fuel='') (fst (create_inp_file str inp)) =
      map (\<lambda>b. b @ ''\<newline>'') (fuel_entries inp)" if "pamb inp \<noteq> 0"
    by (simp add: create_inp_file_ok [OF that] filter_fuel_writes)
      (simp add: head_entries_def ox_entry_def)
  have c: "length (fuel_entries inp) =
      min (length (fuel_chems inp)) (length (fuel_chem_mass_percs inp))"
    by (simp add: fuel_entries_def)
  have d: "\<forall>i < min (length (fuel_chems inp)) (length (fuel_chem_mass_percs inp)).
        fuel_entries inp ! i =
          ''fuel='' @ fuel_chems inp ! i @ '' wt='' @ fmt3 (fuel_chem_mass_percs inp ! i) @
          '' t,K='' @ fmt3 (fuel_initial_temp inp)"
    by (simp add: fuel_entries_def fuel_entry_def)
  have e: "filter (\<lambda>l. startswith l ''fuel='') (text_lines (concat (fst (create_inp_file str inp)))) =
          fuel_entries inp"
    if "pamb inp \<noteq> 0" "newline_free (str (of_ratio inp))"
      "\<forall>c\<in>set (take (length (fuel_chem_mass_percs inp)) (fuel_chems inp)). newline_free c"
      "newline_free (ox_chem inp)"
    by (simp only: document_lines [where str = str and inp = inp, OF that] filter_fuel_document)
  from a b c d e show ?thesis by blast
qed

theorem fuel_lines_truncate_witness:
  "length (fuel_chems inp_mismatch) = 2 \<and> length (fuel_chem_mass_percs inp_mismatch) = 1 \<and>
   snd (create_inp_file str_scenario inp_mismatch) = None \<and>
   filter (\<lambda>l. startswith l ''fuel='')
     (text_lines (concat (fst (create_inp_file str_scenario inp_mismatch)))) =
     [''fuel=C2H5OH wt=100.000 t,K=298.000'']"
proof -
  have h: "length (fuel_chems inp_mismatch) \<noteq> length (fuel_chem_mass_percs inp_mismatch)"
    and p: "pamb inp_mismatch \<noteq> 0 \<and> newline_free (str_scenario (of_ratio inp_mismatch)) \<and>
      (\<forall>c\<in>set (take (length (fuel_chem_mass_percs inp_mismatch)) (fuel_chems inp_mismatch)).
         newline_free c) \<and> newline_free (ox_chem inp_mismatch)"
    and l: "length (fuel_chems inp_mismatch) = 2" "length (fuel_chem_mass_percs inp_mismatch) = 1"
    by (simp_all add: inp_mismatch_def inp_scenario_def str_scenario_def)
  have e: "fuel_entries inp_mismatch = [''fuel=C2H5OH wt=100.000 t,K=298.000'']"
    by (simp add: fuel_entries_def fuel_entry_def inp_mismatch_def inp_scenario_def fmt3_eval)
  note t = fuel_lines_truncate [OF h, of str_scenario]
  from t p have "snd (create_inp_file str_scenario inp_mismatch) = None" by blast
  moreover from t p have "filter (\<lambda>l. startswith l ''fuel='')
     (text_lines (concat (fst (create_inp_file str_scenario inp_mismatch)))) =
     fuel_entries inp_mismatch" by blast
  ultimately show ?thesis using l e by simp
qed

text \<open>
  C5 as it is worded fails twice. With two names, one percentage and an ambient pressure
  of 0 the writer raises ZeroDivisionError and no \<^verbatim>\<open>fuel=\<close> line is written. With the
  names \<^verbatim>\<open>C2H5OH\nfuel=H2O\<close> and \<^verbatim>\<open>X\<close> and one percentage, two lines of the document
  start with \<^verbatim>\<open>fuel=\<close>, and the shorter list has one entry.
\<close>

theorem fuel_lines_truncate_counterexample:
  "length (fuel_chems inp_mismatch_zero) = 2 \<and>
   length (fuel_chem_mass_percs inp_mismatch_zero) = 1 \<and>
   create_inp_file str_scenario inp_mismatch_zero =
     ([''problem\<newline>'', ''rocket\<newline>'', ''equilibrium\<newline>'', ''p,bar=20.000\<newline>''],
      Some ZeroDivisionError) \<and>
   length (fuel_chems inp_mismatch_injected) = 2 \<and>
   length (fuel_chem_mass_percs inp_mismatch_injected) = 1 \<and>
   snd (create_inp_file str_scenario inp_mismatch_injected) = None \<and>
   filter (\<lambda>l. startswith l ''fuel='')
     (text_lines (concat (fst (create_inp_file str_scenario inp_mismatch_injected)))) =
     [''fuel=C2H5OH'', ''fuel=H2O wt=100.000 t,K=298.000'']"
  by (simp add: writer_eval)



section \<open>Properties of the float operations\<close>

lemma round_half_even_ge: "of_int N \<le> y \<Longrightarrow> N \<le> round_half_even y"
proof -
  assume "of_int N \<le> y"
  then have "N \<le> \<lfloor>y\<rfloor>" by (simp add: le_floor_iff)
  then show ?thesis by (auto simp: round_half_even_def Let_def)
qed

lemma round_half_even_le: "y \<le> of_int M \<Longrightarrow> round_half_even y \<le> M"
proof -
  assume a: "y \<le> of_int M"
  show ?thesis
  proof (cases "y = of_int M")
    case True
    then show ?thesis by (simp add: round_half_even_def Let_def)
  next
    case False
    with a have "y < of_int M" by simp
    then have "\<lfloor>y\<rfloor> < M" by (simp add: floor_less_iff)
    then show ?thesis by (auto simp: round_half_even_def Let_def)
  qed
qed

lemma two_powi_less_D: "(2::real) powi a < 2 powi b \<Longrightarrow> a < b"
proof (rule ccontr)
  assume lt: "(2::real) powi a < 2 powi b" and "\<not> a < b"
  then have "b \<le> a" by simp
  then have "(2::real) powi b \<le> 2 powi a" by (intro power_int_increasing) simp_all
  with lt show False by simp
qed

lemma two_powi_le_D: "(2::real) powi a \<le> 2 powi b \<Longrightarrow> a \<le> b"
proof (rule ccontr)
  assume le: "(2::real) powi a \<le> 2 powi b" and "\<not> a \<le> b"
  then have "b < a" by simp
  then have "(2::real) powi b < 2 powi a" by (intro power_int_strict_increasing) simp_all
  with le show False by simp
qed

lemma two_powi_exponent:
  assumes "0 < (x::real)"
  obtains k where "2 powi k \<le> x" "x < 2 powi (k + 1)"
proof -
  define k where "k = \<lfloor>log 2 x\<rfloor>"
  have a: "2 powr real_of_int k = 2 powi k" by (rule powr_real_of_int') simp_all
  have b: "2 powr real_of_int (k + 1) = 2 powi (k + 1)" by (rule powr_real_of_int') simp_all
  have "\<lfloor>log 2 x\<rfloor> = k \<longleftrightarrow> 2 powr real_of_int k \<le> x \<and> x < 2 powr real_of_int (k + 1)"
    using assms by (rule floor_log_eq_powr_iff) simp
  moreover have "\<lfloor>log 2 x\<rfloor> = k" by (simp add: k_def)
  ultimately have "2 powr real_of_int k \<le> x \<and> x < 2 powr real_of_int (k + 1)"
    by blast
  then have "2 powi k \<le> x" "x < 2 powi (k + 1)"
    unfolding a b by blast+
  then show ?thesis by (rule that)
qed

lemma round_half_even_of_int: "round_half_even (of_int n) = n"
  by (simp add: round_half_even_def)

lemma round_double_range:
  assumes "- 1022 \<le> l" "h \<le> 1023" "2 powi l \<le> x" "x \<le> 2 powi h"
  shows "in_range l h (round_double x)"
proof -
  have "(0::real) < 2 powi l" by simp
  with assms(3) have xpos: "0 < x" by linarith
  obtain k where k: "2 powi k \<le> x" "x < 2 powi (k + 1)"
    using two_powi_exponent [OF xpos] by blast
  have "(2::real) powi l < 2 powi (k + 1)" using assms(3) k(2) by linarith
  then have "l < k + 1" by (rule two_powi_less_D)
  then have lk: "l \<le> k" by simp
  have "(2::real) powi k \<le> 2 powi h" using assms(4) k(1) by linarith
  then have kh: "k \<le> h" by (rule two_powi_le_D)
  have e: "double_exponent x = k"
    using lk kh assms(1,2) k by (intro double_exponent_eq) simp_all
  define ulp :: real where "ulp = 2 powi (k - 52)"
  define c :: int where "c = 2 ^ 52"
  define m where "m = round_half_even (x / ulp)"
  have ulp_pos: "0 < ulp" by (simp add: ulp_def)
  have c_real: "(of_int c :: real) = 2 powi 52" by (simp add: c_def)
  have "(2::real) powi (52 + (k - 52)) = 2 powi 52 * 2 powi (k - 52)"
    by (rule power_int_add) simp
  then have p52: "2 powi k = of_int c * ulp" by (simp only: c_real ulp_def) simp
  have "(2::real) powi (1 + k) = 2 powi 1 * 2 powi k"
    by (rule power_int_add) simp
  then have p53: "2 powi (k + 1) = of_int (2 * c) * ulp"
    by (simp add: p52 add.commute)
  have "of_int c * ulp \<le> x" using k(1) by (simp only: p52)
  then have "of_int c \<le> x / ulp" using ulp_pos by (simp add: pos_le_divide_eq)
  then have m_lo: "c \<le> m" unfolding m_def by (rule round_half_even_ge)
  have "x \<le> of_int (2 * c) * ulp" using k(2) by (simp only: p53)
  then have "x / ulp \<le> of_int (2 * c)" using ulp_pos by (simp only: pos_divide_le_eq)
  then have m_hi: "m \<le> 2 * c" unfolding m_def by (rule round_half_even_le)
  have "(of_int c :: real) \<le> of_int m" using m_lo by (simp only: of_int_le_iff)
  then have "of_int c * ulp \<le> of_int m * ulp"
    using ulp_pos by (intro mult_right_mono) simp_all
  then have r_lo: "2 powi k \<le> of_int m * ulp" by (simp only: p52)
  have r_hi: "of_int m * ulp \<le> 2 powi h"
  proof (cases "k = h")
    case True
    with assms(4) k(1) have "x = of_int c * ulp" by (simp add: p52 [symmetric])
    then have "x / ulp = of_int c" using ulp_pos by simp
    then have "m = c" unfolding m_def by (simp only: round_half_even_of_int)
    then have "of_int m * ulp = 2 powi k" by (simp only: p52)
    with True show ?thesis by simp
  next
    case False
    with kh have "k + 1 \<le> h" by simp
    then have "(2::real) powi (k + 1) \<le> 2 powi h" by (intro power_int_increasing) simp_all
    moreover have "(of_int m :: real) \<le> of_int (2 * c)" using m_hi by (simp only: of_int_le_iff)
    then have "of_int m * ulp \<le> of_int (2 * c) * ulp"
      using ulp_pos by (intro mult_right_mono) simp_all
    ultimately show ?thesis by (simp only: p53)
  qed
  have "(2::real) powi h \<le> 2 powi 1023" using assms(2) by (intro power_int_increasing) simp_all
  moreover have "(2::real) powi 1023 < 2 powi 1024" by (intro power_int_strict_increasing) simp_all
  ultimately have fin: "\<not> 2 powi 1024 \<le> of_int m * ulp" using r_hi by linarith
  have "0 < c" by (simp add: c_def)
  with m_lo have mpos: "m \<noteq> 0" by linarith
  have "(2::real) powi l \<le> 2 powi k" using lk by (intro power_int_increasing) simp_all
  with r_lo have r_lo': "2 powi l \<le> of_int m * ulp" by linarith
  have "round_double x = Finite (of_int m * ulp)"
    unfolding round_double_def Let_def using xpos fin mpos
    by (simp only: e abs_of_pos ulp_def [symmetric] m_def [symmetric] if_False not_less_iff_gr_or_eq)
      (simp add: not_less [symmetric] less_imp_le del: not_less)
  with r_lo' r_hi show ?thesis by simp
qed

lemma in_range_Finite: "in_range l h x \<Longrightarrow> \<exists>v. x = Finite v \<and> 2 powi l \<le> v \<and> v \<le> 2 powi h"
  by (cases x) simp_all

lemma in_range_weaken: "in_range l h x \<Longrightarrow> l' \<le> l \<Longrightarrow> h \<le> h' \<Longrightarrow> in_range l' h' x"
proof -
  assume r: "in_range l h x" and l: "l' \<le> l" and h: "h \<le> h'"
  from r obtain v where v: "x = Finite v" "2 powi l \<le> v" "v \<le> 2 powi h"
    using in_range_Finite by blast
  have "(2::real) powi l' \<le> 2 powi l" using l by (intro power_int_increasing) simp_all
  moreover have "(2::real) powi h \<le> 2 powi h'" using h by (intro power_int_increasing) simp_all
  ultimately show ?thesis using v by simp
qed

lemma float_mul_Finite:
  "0 < x \<Longrightarrow> 0 < y \<Longrightarrow> float_mul (Finite x) (Finite y) = round_double (x * y)"
  by (simp add: float_mul_def)

lemma float_mul_range:
  assumes "in_range l1 h1 a" "in_range l2 h2 b" "- 1022 \<le> l1 + l2" "h1 + h2 \<le> 1023"
  shows "in_range (l1 + l2) (h1 + h2) (float_mul a b)"
proof -
  from assms(1) obtain x where x: "a = Finite x" "2 powi l1 \<le> x" "x \<le> 2 powi h1"
    using in_range_Finite by blast
  from assms(2) obtain y where y: "b = Finite y" "2 powi l2 \<le> y" "y \<le> 2 powi h2"
    using in_range_Finite by blast
  have "(0::real) < 2 powi l1" "(0::real) < 2 powi l2" by simp_all
  with x y have pos: "0 < x" "0 < y" by linarith+
  have lo: "2 powi (l1 + l2) \<le> x * y"
    using x(2) y(2) pos by (simp add: power_int_add mult_mono)
  have hi: "x * y \<le> 2 powi (h1 + h2)"
    using x(3) y(3) pos by (simp add: power_int_add mult_mono)
  have "float_mul a b = round_double (x * y)"
    by (simp only: x(1) y(1) float_mul_Finite [OF pos])
  with round_double_range [OF assms(3,4) lo hi] show ?thesis by simp
qed

lemma float_truediv_range:
  assumes "in_range l1 h1 a" "in_range l2 h2 b" "- 1022 \<le> l1 - h2" "h1 - l2 \<le> 1023"
  shows "\<exists>q. float_truediv a b = Inr q \<and> in_range (l1 - h2) (h1 - l2) q"
proof -
  from assms(1) obtain x where x: "a = Finite x" "2 powi l1 \<le> x" "x \<le> 2 powi h1"
    using in_range_Finite by blast
  from assms(2) obtain y where y: "b = Finite y" "2 powi l2 \<le> y" "y \<le> 2 powi h2"
    using in_range_Finite by blast
  have "(0::real) < 2 powi l1" "(0::real) < 2 powi l2" by simp_all
  with x y have pos: "0 < x" "0 < y" by linarith+
  have "2 powi l1 / 2 powi h2 \<le> x / y"
    using x(2) y(3) pos by (intro frac_le) simp_all
  then have lo: "2 powi (l1 - h2) \<le> x / y" by (simp add: power_int_diff)
  have "x / y \<le> 2 powi h1 / 2 powi l2"
    using x(3) y(2) pos by (intro frac_le) simp_all
  then have hi: "x / y \<le> 2 powi (h1 - l2)" by (simp add: power_int_diff)
  have "float_truediv a b = Inr (round_double (x / y))"
    using pos by (simp add: float_truediv_def x(1) y(1))
  with round_double_range [OF assms(3,4) lo hi] show ?thesis by simp
qed

lemma math_sqrt_range:
  assumes "in_range (2 * l) (2 * h) a" "- 1022 \<le> l" "h \<le> 1023"
  shows "\<exists>s. math_sqrt a = Inr s \<and> in_range l h s"
proof -
  from assms(1) obtain x where x: "a = Finite x" "2 powi (2 * l) \<le> x" "x \<le> 2 powi (2 * h)"
    using in_range_Finite by blast
  have "(0::real) < 2 powi (2 * l)" by simp
  with x have pos: "0 < x" by linarith
  have sq: "sqrt (2 powi (2 * n)) = 2 powi n" for n :: int
  proof -
    have "(2::real) powi (n + n) = 2 powi n * 2 powi n" by (rule power_int_add) simp
    then have "(2::real) powi (2 * n) = (2 powi n)\<^sup>2" by (simp add: power2_eq_square)
    then show ?thesis by simp
  qed
  have lo: "2 powi l \<le> sqrt x" using x(2) sq [of l] real_sqrt_le_mono by fastforce
  have hi: "sqrt x \<le> 2 powi h" using x(3) sq [of h] real_sqrt_le_mono by fastforce
  have "math_sqrt a = Inr (round_double (sqrt x))"
    using pos by (simp add: x(1))
  with round_double_range [OF assms(2,3) lo hi] show ?thesis by simp
qed

text \<open>A positive number below half the least subnormal rounds to the positive zero.\<close>

lemma round_double_underflow:
  assumes "0 < x" "x < 2 powi (- 1075)"
  shows "round_double x = Finite 0"
proof -
  have "(2::real) powi (- 1075) < 2 powi (- 1021)" by (intro power_int_strict_increasing) simp_all
  with assms(2) have "x < 2 powi (- 1021)" by linarith
  then have e: "double_exponent x = - 1022" by (rule double_exponent_subnormal)
  have "(2::real) powi (- 1 + (- 1074)) = 2 powi (- 1) * 2 powi (- 1074)"
    by (rule power_int_add) simp
  then have h: "(2::real) powi (- 1075) = 2 powi (- 1074) / 2" by simp
  define ulp :: real where "ulp = 2 powi (- 1074)"
  have ulp_pos: "0 < ulp" by (simp add: ulp_def)
  have "x < ulp / 2" using assms(2) by (simp only: h ulp_def)
  then have y: "0 \<le> x / ulp" "x / ulp < 1 / 2" using assms(1) ulp_pos
    by (simp_all add: pos_divide_less_eq)
  define y where "y = x / ulp"
  have y': "0 \<le> y" "y < 1 / 2" using y by (simp_all only: y_def)
  then have "\<lfloor>y\<rfloor> = 0" by (simp add: floor_eq_iff)
  with y' have "round_half_even y = 0" by (simp add: round_half_even_def)
  then have m0: "round_half_even (x / ulp) = 0" by (simp only: y_def)
  have "(- 1022::int) - 52 = - 1074" by simp
  then have u: "2 powi (double_exponent x - 52) = ulp" by (simp only: e ulp_def)
  have "round_double x =
      (if 2 powi 1024 \<le> of_int 0 * ulp then Infinity (x < 0)
       else if (0::int) = 0 then signed_zero (x < 0) else Finite (if x < 0 then - (of_int 0 * ulp) else of_int 0 * ulp))"
    unfolding round_double_def Let_def by (simp only: abs_of_pos [OF assms(1)] u m0)
  then show ?thesis using assms(1) by (simp add: signed_zero_def)
qed

text \<open>The constants of \<open>valve_flow_coefficient\<close>, as doubles.\<close>

lemma valve_constants:
  "in_range 0 1 (round_double 1.8)" "in_range 3 4 (round_double 14.504)"
  "in_range 0 1 (round_double 1.013)" "in_range 16 17 (Finite 127133)"
  "in_range 8 9 (Finite 295)" "in_range 9 10 (Finite 816)"
  by (simp_all add: round_double_range)

lemma float_mul_zero_left: "in_range l h b \<Longrightarrow> float_mul (Finite 0) b = Finite 0"
proof -
  assume "in_range l h b"
  then obtain y where y: "b = Finite y" "2 powi l \<le> y" using in_range_Finite by blast
  have "(0::real) < 2 powi l" by simp
  with y have "0 < y" by linarith
  then show ?thesis by (simp add: float_mul_def y(1) signed_zero_def)
qed

lemma float_truediv_zero_left: "in_range l h b \<Longrightarrow> float_truediv (Finite 0) b = Inr (Finite 0)"
proof -
  assume "in_range l h b"
  then obtain y where y: "b = Finite y" "2 powi l \<le> y" using in_range_Finite by blast
  have "(0::real) < 2 powi l" by simp
  with y have "0 < y" by linarith
  then show ?thesis by (simp add: float_truediv_def y(1) signed_zero_def)
qed

lemma is_zero_float_mul_left:
  assumes "is_zero a" "in_range l h b"
  shows "is_zero (float_mul a b)"
proof -
  obtain y where y: "b = Finite y" "2 powi l \<le> y" using in_range_Finite [OF assms(2)] by blast
  have "(0::real) < 2 powi l" by simp
  with y have "y \<noteq> 0" by linarith
  from assms(1) have "a = Finite 0 \<or> a = NegZero" by (cases a) simp_all
  then show ?thesis using \<open>y \<noteq> 0\<close>
    by (auto simp: float_mul_def y(1) signed_zero_def)
qed

lemma is_zero_float_mul_right:
  assumes "in_range l h a" "is_zero b"
  shows "is_zero (float_mul a b)"
proof -
  obtain y where y: "a = Finite y" "2 powi l \<le> y" using in_range_Finite [OF assms(1)] by blast
  have "(0::real) < 2 powi l" by simp
  with y have "y \<noteq> 0" by linarith
  from assms(2) have "b = Finite 0 \<or> b = NegZero" by (cases b) simp_all
  then show ?thesis using \<open>y \<noteq> 0\<close>
    by (auto simp: float_mul_def y(1) signed_zero_def)
qed

text \<open>With an outlet pressure that is a zero, the last divisor is a zero.\<close>

lemma valve_divisor_zero:
  assumes "is_zero P_out"
  shows "is_zero (float_mul (Finite 816) (float_mul P_out (round_double 14.504)))"
  by (rule is_zero_float_mul_right [OF valve_constants(6)
        is_zero_float_mul_left [OF assms valve_constants(2)]])

lemma float_truediv_is_zero: "is_zero b \<Longrightarrow> float_truediv a b = Inl ZeroDivisionError"
  by (simp add: float_truediv_def)

lemma valve_zero_outlet:
  assumes "is_zero P_out"
  shows "\<exists>e. valve_flow_coefficient M_air Vdot P_in P_out T molar_mass = Inl e"
  unfolding valve_flow_coefficient_def Let_def
  by (simp only: float_truediv_is_zero [OF valve_divisor_zero [OF assms]] split: sum.split)
    blast

text \<open>No product or quotient leaves the normal doubles when the inputs are in range.\<close>

lemma valve_in_range:
  assumes "in_range (- 100) 100 M_air" "in_range (- 100) 100 Vdot" "in_range (- 100) 100 P_out"
    "in_range (- 100) 100 T" "in_range (- 100) 100 molar_mass"
  shows "\<exists>Cv. valve_flow_coefficient M_air Vdot P_in P_out T molar_mass = Inr Cv \<and>
     in_range (- 541) 564 Cv"
proof -
  obtain sg where sg: "float_truediv molar_mass M_air = Inr sg" "in_range (- 200) 200 sg"
    using float_truediv_range [OF assms(5) assms(1)] by auto
  have cfh: "in_range (- 84) 117 (float_mul Vdot (Finite 127133))"
    using float_mul_range [OF assms(2) valve_constants(4)] by simp
  have psi: "in_range (- 97) 104 (float_mul P_out (round_double 14.504))"
    using float_mul_range [OF assms(3) valve_constants(2)] by simp
  have t0: "in_range (- 184) 217 (float_mul (float_mul Vdot (Finite 127133)) P_out)"
    using float_mul_range [OF cfh assms(3)] by simp
  obtain q where q: "float_truediv (float_mul (float_mul Vdot (Finite 127133)) P_out)
      (round_double 1.013) = Inr q" "in_range (- 185) 217 q"
    using float_truediv_range [OF t0 valve_constants(3)] by auto
  have t2: "in_range (- 177) 226 (float_mul q (Finite 295))"
    using float_mul_range [OF q(2) valve_constants(5)] by simp
  obtain vs where vs: "float_truediv (float_mul q (Finite 295)) T = Inr vs" "in_range (- 277) 326 vs"
    using float_truediv_range [OF t2 assms(4)] by auto
  have "in_range (- 300) 300 (float_mul sg T)"
    using float_mul_range [OF sg(2) assms(4)] by simp
  then have "in_range (2 * (- 150)) (2 * 150) (float_mul sg T)" by simp
  then obtain sq where sq: "math_sqrt (float_mul sg T) = Inr sq" "in_range (- 150) 150 sq"
    using math_sqrt_range [of "- 150" 150 "float_mul sg T"] by auto
  have num: "in_range (- 427) 476 (float_mul vs sq)"
    using float_mul_range [OF vs(2) sq(2)] by simp
  have den: "in_range (- 88) 114 (float_mul (Finite 816) (float_mul P_out (round_double 14.504)))"
    using float_mul_range [OF valve_constants(6) psi] by simp
  obtain Cv where Cv: "float_truediv (float_mul vs sq)
      (float_mul (Finite 816) (float_mul P_out (round_double 14.504))) = Inr Cv"
      "in_range (- 541) 564 Cv"
    using float_truediv_range [OF num den] by auto
  have "valve_flow_coefficient M_air Vdot P_in P_out T molar_mass = Inr Cv"
    by (simp only: valve_flow_coefficient_def Let_def sg(1) q(1) vs(1) sq(1) Cv(1) sum.case)
  with Cv(2) show ?thesis by blast
qed

section \<open>Claims about the flow coefficient\<close>

text \<open>
  C8, as the code has it. With an outlet pressure that is a zero (\<open>0.0\<close> or \<open>-0.0\<close>)
  \<^verbatim>\<open>valve_flow_coefficient\<close> raises an exception, whatever the other arguments are: the
  last divisor \<^verbatim>\<open>816 * P_out_psi\<close> is then a zero, and a float division by zero raises
  ZeroDivisionError when no earlier operation has raised. When the molar mass of air,
  \<^verbatim>\<open>Vdot\<close>, \<^verbatim>\<open>P_out\<close>, \<^verbatim>\<open>T\<close> and \<^verbatim>\<open>molar_mass\<close> are all between \<open>2 ^ -100\<close> and \<open>2 ^ 100\<close>,
  the function returns a finite and strictly positive Cv, whatever \<^verbatim>\<open>P_in\<close> is.
\<close>

theorem valve_flow_coefficient_sign:
  "(is_zero P_out \<longrightarrow>
      (\<exists>e. valve_flow_coefficient M_air Vdot P_in P_out T molar_mass = Inl e)) \<and>
   (in_range (- 100) 100 M_air \<and> in_range (- 100) 100 Vdot \<and> in_range (- 100) 100 P_out \<and>
    in_range (- 100) 100 T \<and> in_range (- 100) 100 molar_mass \<longrightarrow>
      (\<exists>Cv. valve_flow_coefficient M_air Vdot P_in P_out T molar_mass = Inr (Finite Cv) \<and>
         0 < Cv))"
proof (intro conjI impI)
  assume "is_zero P_out"
  then show "\<exists>e. valve_flow_coefficient M_air Vdot P_in P_out T molar_mass = Inl e"
    by (rule valve_zero_outlet)
next
  assume a: "in_range (- 100) 100 M_air \<and> in_range (- 100) 100 Vdot \<and>
    in_range (- 100) 100 P_out \<and> in_range (- 100) 100 T \<and> in_range (- 100) 100 molar_mass"
  then obtain r where r: "valve_flow_coefficient M_air Vdot P_in P_out T molar_mass = Inr r"
    "in_range (- 541) 564 r"
    using valve_in_range [of M_air Vdot P_out T molar_mass P_in] by blast
  then obtain Cv where Cv: "r = Finite Cv" "2 powi (- 541) \<le> Cv"
    using in_range_Finite by blast
  have "(0::real) < 2 powi (- 541)" by simp
  with Cv have "0 < Cv" by linarith
  with r Cv show "\<exists>Cv. valve_flow_coefficient M_air Vdot P_in P_out T molar_mass = Inr (Finite Cv) \<and>
      0 < Cv"
    by blast
qed

theorem valve_flow_coefficient_sign_witness:
  "(\<exists>Cv. valve_flow_coefficient (round_double 0.02896546) (Finite 1) (Finite 20) (Finite 10)
       (Finite 300) (round_double 0.032) = Inr (Finite Cv) \<and> 0 < Cv) \<and>
   (\<exists>e. valve_flow_coefficient (round_double 0.02896546) (Finite 1) (Finite 20) (Finite 0)
       (Finite 300) (round_double 0.032) = Inl e)"
proof -
  have r: "in_range (- 100) 100 (round_double 0.02896546) \<and> in_range (- 100) 100 (Finite 1) \<and>
    in_range (- 100) 100 (Finite 10) \<and> in_range (- 100) 100 (Finite 300) \<and>
    in_range (- 100) 100 (round_double 0.032)"
    by (simp add: round_double_range)
  have z: "is_zero (Finite 0)" by simp
  from valve_flow_coefficient_sign [of "Finite 10" "round_double 0.02896546" "Finite 1" "Finite 20"
      "Finite 300" "round_double 0.032"] r
    valve_flow_coefficient_sign [of "Finite 0" "round_double 0.02896546" "Finite 1" "Finite 20"
      "Finite 300" "round_double 0.032"] z
  show ?thesis by blast
qed

text \<open>
  C8 as it is worded fails for strictly positive inputs outside that range: with
  \<^verbatim>\<open>Vdot = 1e-30\<close>, \<^verbatim>\<open>P_in = 1\<close>, \<^verbatim>\<open>P_out = 1e-300\<close>, \<^verbatim>\<open>T = 300\<close> and \<^verbatim>\<open>molar_mass = 0.032\<close>
  (and 0.02896546 for the molar mass of air) the product \<^verbatim>\<open>Vdot_cfh * P_out\<close> underflows to
  \<open>0.0\<close>, and the function returns \<open>0.0\<close>, which is not strictly positive. The four inputs
  that are written in decimal are positive doubles, each between two powers of two.
\<close>

theorem valve_underflow_counterexample:
  "in_range (- 6) (- 5) (round_double 0.02896546) \<and>
   in_range (- 100) (- 99) (round_double (1 / 10 ^ 30)) \<and>
   in_range (- 997) (- 996) (round_double (1 / 10 ^ 300)) \<and>
   in_range (- 5) (- 4) (round_double 0.032) \<and>
   valve_flow_coefficient (round_double 0.02896546) (round_double (1 / 10 ^ 30)) (Finite 1)
     (round_double (1 / 10 ^ 300)) (Finite 300) (round_double 0.032) = Inr (Finite 0)"
proof -
  have M: "in_range (- 6) (- 5) (round_double 0.02896546)"
    and V: "in_range (- 100) (- 99) (round_double (1 / 10 ^ 30))"
    and P: "in_range (- 997) (- 996) (round_double (1 / 10 ^ 300))"
    and mm: "in_range (- 5) (- 4) (round_double 0.032)"
    and T: "in_range 8 9 (Finite 300)"
    by (simp_all add: round_double_range)
  let ?M = "round_double 0.02896546" and ?V = "round_double (1 / 10 ^ 30)"
  let ?P = "round_double (1 / 10 ^ 300)" and ?mm = "round_double 0.032"
  obtain sg where sg: "float_truediv ?mm ?M = Inr sg" "in_range 0 2 sg"
    using float_truediv_range [OF mm M] by auto
  have cfh: "in_range (- 84) (- 82) (float_mul ?V (Finite 127133))"
    using float_mul_range [OF V valve_constants(4)] by simp
  then obtain x where x: "float_mul ?V (Finite 127133) = Finite x" "2 powi (- 84) \<le> x"
    "x \<le> 2 powi (- 82)"
    using in_range_Finite by blast
  obtain y where y: "?P = Finite y" "2 powi (- 997) \<le> y" "y \<le> 2 powi (- 996)"
    using in_range_Finite [OF P] by blast
  have "(0::real) < 2 powi (- 84)" "(0::real) < 2 powi (- 997)" by simp_all
  with x y have pos: "0 < x" "0 < y" by linarith+
  have "x * y \<le> 2 powi (- 82) * 2 powi (- 996)"
    using x(3) y(3) pos by (intro mult_mono) simp_all
  also have "(2::real) powi (- 82) * 2 powi (- 996) = 2 powi (- 82 + - 996)"
    by (rule power_int_add [symmetric]) simp
  also have "\<dots> < 2 powi (- 1075)" by (intro power_int_strict_increasing) simp_all
  finally have "round_double (x * y) = Finite 0"
    using pos by (intro round_double_underflow) simp_all
  then have t0: "float_mul (float_mul ?V (Finite 127133)) ?P = Finite 0"
    by (simp only: x(1) y(1) float_mul_Finite [OF pos])
  have q: "float_truediv (Finite 0) (round_double 1.013) = Inr (Finite 0)"
    using valve_constants(3) by (rule float_truediv_zero_left)
  have t2: "float_mul (Finite 0) (Finite 295) = Finite 0"
    using valve_constants(5) by (rule float_mul_zero_left)
  have vs: "float_truediv (Finite 0) (Finite 300) = Inr (Finite 0)"
    using T by (rule float_truediv_zero_left)
  have "in_range 8 11 (float_mul sg (Finite 300))"
    using float_mul_range [OF sg(2) T] by simp
  then have "in_range (2 * 4) (2 * 6) (float_mul sg (Finite 300))"
    by (rule in_range_weaken) simp_all
  then obtain sq where sq: "math_sqrt (float_mul sg (Finite 300)) = Inr sq" "in_range 4 6 sq"
    using math_sqrt_range [of 4 6 "float_mul sg (Finite 300)"] by auto
  have num: "float_mul (Finite 0) sq = Finite 0"
    using sq(2) by (rule float_mul_zero_left)
  have psi: "in_range (- 994) (- 992) (float_mul ?P (round_double 14.504))"
    using float_mul_range [OF P valve_constants(2)] by simp
  have den: "in_range (- 985) (- 982) (float_mul (Finite 816) (float_mul ?P (round_double 14.504)))"
    using float_mul_range [OF valve_constants(6) psi] by simp
  have Cv: "float_truediv (Finite 0) (float_mul (Finite 816) (float_mul ?P (round_double 14.504)))
      = Inr (Finite 0)"
    using den by (rule float_truediv_zero_left)
  have "valve_flow_coefficient ?M ?V (Finite 1) ?P (Finite 300) ?mm = Inr (Finite 0)"
    by (simp only: valve_flow_coefficient_def Let_def sg(1) t0 q t2 vs sq(1) num Cv sum.case)
  with M V P mm show ?thesis by blast
qed

end
